theory Spec2Isabelle
  imports Complex_Main "HOL-Library.Sublist" "HOL-Library.Word"
begin

section \<open>Paginated retrieval of tree leaves\<close>

text \<open>
  \<^verbatim>\<open>fetchRPCTreeLeaves (api, treeId)\<close> asks the node's leaf RPC \<^verbatim>\<open>mt.getLeaves (treeId, from, to)\<close>
  for one window after the other. The RPC is the node's, not this repository's: it is a
  parameter of the model, a function from the tree id and the two bounds to either an error
  (the awaited promise rejects, and the rejection leaves \<^verbatim>\<open>fetchRPCTreeLeaves\<close> at once) or a
  page of leaves. The conversion \<^verbatim>\<open>toU8a\<close> of one leaf is a parameter as well.

  The model returns, next to the outcome, the list of windows that were requested, in the
  order of the requests. The loop has no bound of its own: against an RPC that never answers
  with an empty page it runs forever, which is the value \<open>None\<close>.

  The bounds \<^verbatim>\<open>from\<close> and \<^verbatim>\<open>to\<close> are JavaScript numbers that only ever hold multiples of 511;
  they are natural numbers here, which is what they are below \<open>2 ^ 53\<close>.
\<close>

type_synonym window = "nat \<times> nat"

type_synonym ('t, 'l, 'e) getLeaves = "'t \<Rightarrow> nat \<Rightarrow> nat \<Rightarrow> 'e + 'l list"

partial_function (option) fetchRPCTreeLeaves_loop ::
  "('t, 'l, 'e) getLeaves \<Rightarrow> ('l \<Rightarrow> 'u) \<Rightarrow> 't \<Rightarrow> nat \<Rightarrow> nat \<Rightarrow> 'u list \<Rightarrow> window list
    \<Rightarrow> (('e + 'u list) \<times> window list) option" where
  "fetchRPCTreeLeaves_loop getLeaves toU8a treeId from to leaves calls =
     (case getLeaves treeId from to of
        Inl e \<Rightarrow> Some (Inl e, calls @ [(from, to)])
      | Inr treeLeaves \<Rightarrow>
          if length treeLeaves = 0 then Some (Inr leaves, calls @ [(from, to)])
          else fetchRPCTreeLeaves_loop getLeaves toU8a treeId to (to + 511)
                 (leaves @ map toU8a treeLeaves) (calls @ [(from, to)]))"

declare fetchRPCTreeLeaves_loop.simps [code]

definition fetchRPCTreeLeaves ::
  "('t, 'l, 'e) getLeaves \<Rightarrow> ('l \<Rightarrow> 'u) \<Rightarrow> 't \<Rightarrow> (('e + 'u list) \<times> window list) option" where
  "fetchRPCTreeLeaves getLeaves toU8a treeId =
     fetchRPCTreeLeaves_loop getLeaves toU8a treeId 0 511 [] []"

text \<open>
  Two names for the statements below: the \<open>k\<close>-th window of 511 indices, and the answer of
  an RPC to the request for it.
\<close>

definition pageWindow :: "nat \<Rightarrow> window" where
  "pageWindow k = (511 * k, 511 * k + 511)"

definition pageOf :: "('t, 'l, 'e) getLeaves \<Rightarrow> 't \<Rightarrow> nat \<Rightarrow> 'e + 'l list" where
  "pageOf getLeaves treeId k = getLeaves treeId (511 * k) (511 * k + 511)"

section \<open>Direct submission of an extrinsic\<close>

text \<open>
  \<^verbatim>\<open>polkadotTx\<close> returns a promise and settles it from the callback it hands to
  \<^verbatim>\<open>signAndSend\<close>. A promise is settled by the first call of \<^verbatim>\<open>resolve\<close> or \<^verbatim>\<open>reject\<close>;
  every later call leaves it as it is. The value of a rejection is the message string of a
  failed extrinsic, or whatever \<^verbatim>\<open>signAndSend\<close> itself was rejected with. The extrinsic is
  built before the promise exists; the model begins where the promise does, with the hash
  of the extrinsic as a parameter.
\<close>

datatype ('a, 'r) promise = Pending | Fulfilled 'a | Rejected 'r

definition resolve :: "'a \<Rightarrow> ('a, 'r) promise \<Rightarrow> ('a, 'r) promise" where
  "resolve v p = (case p of Pending \<Rightarrow> Fulfilled v | Fulfilled w \<Rightarrow> p | Rejected r \<Rightarrow> p)"

definition reject :: "'r \<Rightarrow> ('a, 'r) promise \<Rightarrow> ('a, 'r) promise" where
  "reject r p = (case p of Pending \<Rightarrow> Rejected r | Fulfilled w \<Rightarrow> p | Rejected q \<Rightarrow> p)"

datatype 'e reason = Message string | TransportError 'e

text \<open>
  The status of an extrinsic in the transaction pool, with the two predicates the callback
  reads.
\<close>

datatype ExtrinsicStatus =
  Future | Ready | Broadcast | InBlock | Retracted | FinalityTimeout | Finalized
  | Usurped | Dropped | Invalid

definition isInBlock :: "ExtrinsicStatus \<Rightarrow> bool" where
  "isInBlock s = (s = InBlock)"

definition isFinalized :: "ExtrinsicStatus \<Rightarrow> bool" where
  "isFinalized s = (s = Finalized)"

text \<open>
  A dispatch error as the callback reads it: its type tag \<^verbatim>\<open>type\<close>, the flags \<^verbatim>\<open>isModule\<close> and
  \<^verbatim>\<open>isToken\<close>, and the payloads \<^verbatim>\<open>asModule\<close> and \<^verbatim>\<open>asToken\<close> (of which the callback reads the
  field \<^verbatim>\<open>type\<close>, here \<open>tokenType\<close>). \<^verbatim>\<open>registry.findMetaError\<close> either throws or returns the
  fields \<^verbatim>\<open>section\<close> and \<^verbatim>\<open>name\<close> (here \<open>errorSection\<close> and \<open>errorName\<close>).
\<close>

record TokenError =
  tokenType :: string

record 'm DispatchError =
  type :: string
  isModule :: bool
  asModule :: 'm
  isToken :: bool
  asToken :: TokenError

record RegistryError =
  errorSection :: string
  errorName :: string

type_synonym ('m, 'x) findMetaError = "'m \<Rightarrow> 'x + RegistryError"

text \<open>
  An event record (\<^verbatim>\<open>event.section\<close>, \<^verbatim>\<open>event.method\<close>, \<^verbatim>\<open>event.data\<close>) and one status update
  handed to the callback. The callback takes the first element of \<^verbatim>\<open>data\<close> for the dispatch
  error.
\<close>

record 'm EventRecord =
  eventSection :: string
  eventMethod :: string
  eventData :: "'m DispatchError list"

record 'm SubmittableResult =
  status :: ExtrinsicStatus
  events :: "'m EventRecord list"

text \<open>
  The branch of the callback for \<^verbatim>\<open>ExtrinsicFailed\<close>. When \<^verbatim>\<open>findMetaError\<close> throws, the
  \<^verbatim>\<open>catch\<close> block rejects with the type tag and control reaches the \<^verbatim>\<open>reject\<close> after the
  conditional, which rejects with the same message once more.
\<close>

definition extrinsicFailed ::
  "('m, 'x) findMetaError \<Rightarrow> 'm DispatchError \<Rightarrow> ('a, 'e reason) promise
    \<Rightarrow> ('a, 'e reason) promise" where
  "extrinsicFailed findMetaError dispatchError p =
     (let message = type dispatchError in
      if isModule dispatchError then
        (case findMetaError (asModule dispatchError) of
           Inr error \<Rightarrow> reject (Message (errorSection error @ ''.'' @ errorName error)) p
         | Inl thrown \<Rightarrow> reject (Message message) (reject (Message message) p))
      else if isToken dispatchError then
        reject (Message (type dispatchError @ ''.'' @ tokenType (asToken dispatchError))) p
      else reject (Message message) p)"

text \<open>
  The loop over the events. Neither \<^verbatim>\<open>resolve\<close> nor \<^verbatim>\<open>reject\<close> leaves the loop. An
  \<^verbatim>\<open>ExtrinsicFailed\<close> event with empty data makes the read of \<^verbatim>\<open>dispatchError.type\<close> throw a
  TypeError, which abandons the rest of this invocation of the callback and leaves the
  promise as it is.
\<close>

fun handleEvents ::
  "('m, 'x) findMetaError \<Rightarrow> string \<Rightarrow> 'm EventRecord list \<Rightarrow> (string, 'e reason) promise
    \<Rightarrow> (string, 'e reason) promise" where
  "handleEvents findMetaError hash [] p = p"
| "handleEvents findMetaError hash (event # rest) p =
     (if eventMethod event = ''ExtrinsicFailed'' then
        (case eventData event of
           [] \<Rightarrow> p
         | dispatchError # others \<Rightarrow>
             handleEvents findMetaError hash rest (extrinsicFailed findMetaError dispatchError p))
      else if eventMethod event = ''ExtrinsicSuccess'' then
        handleEvents findMetaError hash rest (resolve hash p)
      else handleEvents findMetaError hash rest p)"

definition statusCallback ::
  "('m, 'x) findMetaError \<Rightarrow> string \<Rightarrow> 'm SubmittableResult \<Rightarrow> (string, 'e reason) promise
    \<Rightarrow> (string, 'e reason) promise" where
  "statusCallback findMetaError hash result p =
     (let systemEvents = filter (\<lambda>e. eventSection e = ''system'') (events result) in
      if isInBlock (status result) \<or> isFinalized (status result)
      then handleEvents findMetaError hash systemEvents p
      else p)"

text \<open>
  \<^verbatim>\<open>signAndSend\<close> either fails (its promise rejects, and the \<^verbatim>\<open>catch\<close> handler rejects the
  result with the same value) or registers the callback and delivers status updates to it.
  It hands back a function that would end the subscription; \<^verbatim>\<open>polkadotTx\<close> drops it. The
  state of a call is its promise together with whether the callback is registered; an
  update reaches the callback only while it is.
\<close>

datatype ('m, 'e) signAndSend = SubmitFailed 'e | Subscribed "'m SubmittableResult list"

record 'e TxCall =
  promise :: "(string, 'e reason) promise"
  listening :: bool

definition deliver ::
  "('m, 'x) findMetaError \<Rightarrow> string \<Rightarrow> 'e TxCall \<Rightarrow> 'm SubmittableResult \<Rightarrow> 'e TxCall" where
  "deliver findMetaError hash call result =
     (if listening call
      then call\<lparr>promise := statusCallback findMetaError hash result (promise call)\<rparr>
      else call)"

definition polkadotTx ::
  "('m, 'x) findMetaError \<Rightarrow> string \<Rightarrow> ('m, 'e) signAndSend \<Rightarrow> 'e TxCall" where
  "polkadotTx findMetaError hash outcome =
     (case outcome of
        SubmitFailed e \<Rightarrow> \<lparr>promise = reject (TransportError e) Pending, listening = False\<rparr>
      | Subscribed results \<Rightarrow>
          foldl (deliver findMetaError hash) \<lparr>promise = Pending, listening = True\<rparr> results)"

text \<open>
  For the statements: the events of an update that the loop of the callback runs over.
\<close>

definition observedEvents :: "'m SubmittableResult \<Rightarrow> 'm EventRecord list" where
  "observedEvents result =
     (if isInBlock (status result) \<or> isFinalized (status result)
      then filter (\<lambda>e. eventSection e = ''system'') (events result) else [])"

text \<open>
  The message of a rejection in the specification's words: section and name from the
  registry for an error of a module, the type tag when the lookup throws; type and subtype
  for a token error. The specification names no message for any other error.
\<close>

definition spec_failure_message ::
  "('m, 'x) findMetaError \<Rightarrow> 'm DispatchError \<Rightarrow> string option" where
  "spec_failure_message findMetaError d =
     (if isModule d then
        (case findMetaError (asModule d) of
           Inr err \<Rightarrow> Some (errorSection err @ ''.'' @ errorName err)
         | Inl thrown \<Rightarrow> Some (type d))
      else if isToken d then Some (type d @ ''.'' @ tokenType (asToken d))
      else None)"

section \<open>The proving worker\<close>

text \<open>
  The worker receives a message object and dispatches on its first key. An object is the
  list of its keys and values in the order of \<^verbatim>\<open>Object.keys\<close>; the value under \<^verbatim>\<open>proof\<close> is a
  \<^verbatim>\<open>ProvingManagerSetupInput\<close>, any other value is of no interest to the handler. The field
  \<^verbatim>\<open>note\<close> is \<open>noteString\<close> here.

  The fields \<^verbatim>\<open>leafIndex\<close>, \<^verbatim>\<open>fee\<close> and \<^verbatim>\<open>refund\<close> are JavaScript numbers. A number is either an
  integer of magnitude at most \<open>2 ^ 53 - 1\<close>, a safe integer, or any other number: a
  fraction, a larger magnitude, the negative zero, an infinity or NaN. Of the other numbers
  the model knows nothing but that \<^verbatim>\<open>String\<close> maps each to some string, which is a parameter.
\<close>

type_synonym Uint8Array = "8 word list"

type_synonym Leaves = "Uint8Array list"

typedef safeint = "{i :: int. \<bar>i\<bar> \<le> 9007199254740991}"
  by (rule exI[of _ 0]) simp

datatype 'o number = SafeInteger safeint | OtherNumber 'o

record 'o ProvingManagerSetupInput =
  noteString :: string
  relayer :: string
  recipient :: string
  leaves :: Leaves
  leafIndex :: "'o number"
  fee :: "'o number"
  refund :: "'o number"
  provingKey :: Uint8Array

datatype 'o payload = Undefined | Input "'o ProvingManagerSetupInput"

type_synonym 'o message = "(string \<times> 'o payload) list"

text \<open>
  \<^verbatim>\<open>String (n)\<close> of a safe integer is its decimal numeral, with a minus sign when it is
  negative; of any other number it is what the parameter says (\<^verbatim>\<open>1e+21\<close> for the number
  \<open>10 ^ 21\<close>, \<^verbatim>\<open>0.5\<close> for one half, \<^verbatim>\<open>NaN\<close>).
\<close>

definition digitChar :: "nat \<Rightarrow> char" where
  "digitChar d = ''0123456789abcdef'' ! d"

function decimal :: "nat \<Rightarrow> string" where
  "decimal n = (if n < 10 then [digitChar n] else decimal (n div 10) @ [digitChar (n mod 10)])"
  by pat_completeness auto
termination
  by (relation "measure id") auto

declare decimal.simps [simp del]

definition String_number :: "('o \<Rightarrow> string) \<Rightarrow> 'o number \<Rightarrow> string" where
  "String_number numberToString x =
     (case x of
        SafeInteger s \<Rightarrow>
          (if Rep_safeint s < 0 then ''-'' @ decimal (nat (- Rep_safeint s))
           else decimal (nat (Rep_safeint s)))
      | OtherNumber y \<Rightarrow> numberToString y)"

text \<open>
  \<^verbatim>\<open>u8aToHex\<close> of the utility library: the prefix \<^verbatim>\<open>0x\<close> and two lower-case hexadecimal digits
  for each byte. \<^verbatim>\<open>replace\<close> with a string pattern replaces its first occurrence.
\<close>

definition hexByte :: "8 word \<Rightarrow> string" where
  "hexByte b = [digitChar (unat b div 16), digitChar (unat b mod 16)]"

definition u8aToHex :: "Uint8Array \<Rightarrow> string" where
  "u8aToHex u = ''0x'' @ concat (map hexByte u)"

fun replace :: "string \<Rightarrow> string \<Rightarrow> string \<Rightarrow> string" where
  "replace pat rep [] = (if pat = [] then rep else [])"
| "replace pat rep (c # cs) =
     (if prefix pat (c # cs) then rep @ drop (length pat) (c # cs)
      else c # replace pat rep cs)"

text \<open>
  The proof-input builder of the WebAssembly library: an object whose setters store one
  field each.
\<close>

record JsProofInputBuilder =
  b_leaves :: "Leaves option"
  b_relayer :: "string option"
  b_recipient :: "string option"
  b_leafIndex :: "string option"
  b_fee :: "string option"
  b_refund :: "string option"
  b_pk :: "string option"

definition newManager :: JsProofInputBuilder where
  "newManager = \<lparr>b_leaves = None, b_relayer = None, b_recipient = None, b_leafIndex = None,
     b_fee = None, b_refund = None, b_pk = None\<rparr>"

definition setLeaves :: "Leaves \<Rightarrow> JsProofInputBuilder \<Rightarrow> JsProofInputBuilder" where
  "setLeaves v pm = pm\<lparr>b_leaves := Some v\<rparr>"

definition setRelayer :: "string \<Rightarrow> JsProofInputBuilder \<Rightarrow> JsProofInputBuilder" where
  "setRelayer v pm = pm\<lparr>b_relayer := Some v\<rparr>"

definition setRecipient :: "string \<Rightarrow> JsProofInputBuilder \<Rightarrow> JsProofInputBuilder" where
  "setRecipient v pm = pm\<lparr>b_recipient := Some v\<rparr>"

definition setLeafIndex :: "string \<Rightarrow> JsProofInputBuilder \<Rightarrow> JsProofInputBuilder" where
  "setLeafIndex v pm = pm\<lparr>b_leafIndex := Some v\<rparr>"

definition setFee :: "string \<Rightarrow> JsProofInputBuilder \<Rightarrow> JsProofInputBuilder" where
  "setFee v pm = pm\<lparr>b_fee := Some v\<rparr>"

definition setRefund :: "string \<Rightarrow> JsProofInputBuilder \<Rightarrow> JsProofInputBuilder" where
  "setRefund v pm = pm\<lparr>b_refund := Some v\<rparr>"

definition setPk :: "string \<Rightarrow> JsProofInputBuilder \<Rightarrow> JsProofInputBuilder" where
  "setPk v pm = pm\<lparr>b_pk := Some v\<rparr>"

text \<open>
  What the worker calls without defining it: the three operations that may throw,
  \<^verbatim>\<open>Note.deserialize\<close>, the builder's \<^verbatim>\<open>build_js\<close> and \<^verbatim>\<open>generate_proof_js\<close>, and \<^verbatim>\<open>String\<close> on the
  numbers that are not safe integers. They are parameters. The proof that is generated has
  the fields \<^verbatim>\<open>proof\<close>, \<^verbatim>\<open>root\<close> and \<^verbatim>\<open>nullifierHash\<close>; the worker copies them into its answer
  (\<open>proofBytes\<close> stands for the field \<^verbatim>\<open>proof\<close>).
\<close>

record Proof =
  wasmProof :: Uint8Array
  wasmRoot :: Uint8Array
  wasmNullifierHash :: Uint8Array

record ProofI =
  proofBytes :: Uint8Array
  root :: Uint8Array
  nullifierHash :: Uint8Array

record ('n, 'i, 'e, 'o) externals =
  deserialize :: "string \<Rightarrow> 'e + 'n"
  build_js :: "JsProofInputBuilder \<Rightarrow> 'e + 'i"
  generate_proof_js :: "'n \<Rightarrow> 'i \<Rightarrow> 'e + Proof"
  numberToString :: "'o \<Rightarrow> string"

datatype 'e thrown = TypeError | Thrown 'e

text \<open>
  The builder as the method \<^verbatim>\<open>proof\<close> fills it, setter after setter, and the method itself.
  Reading \<^verbatim>\<open>pmSetupInput.note\<close> of an undefined input throws a TypeError.
\<close>

definition proofInputBuilder ::
  "('o \<Rightarrow> string) \<Rightarrow> 'o ProvingManagerSetupInput \<Rightarrow> JsProofInputBuilder" where
  "proofInputBuilder toString pmSetupInput =
     setPk (replace ''0x'' [] (u8aToHex (provingKey pmSetupInput)))
       (setRefund (String_number toString (refund pmSetupInput))
         (setFee (String_number toString (fee pmSetupInput))
           (setLeafIndex (String_number toString (leafIndex pmSetupInput))
             (setRecipient (recipient pmSetupInput)
               (setRelayer (relayer pmSetupInput)
                 (setLeaves (leaves pmSetupInput) newManager))))))"

definition ProvingManagerWrapper_proof ::
  "('n, 'i, 'e, 'o) externals \<Rightarrow> 'o payload \<Rightarrow> 'e thrown + ProofI" where
  "ProvingManagerWrapper_proof w input =
     (case input of
        Undefined \<Rightarrow> Inl TypeError
      | Input pmSetupInput \<Rightarrow>
          (case deserialize w (noteString pmSetupInput) of
             Inl e \<Rightarrow> Inl (Thrown e)
           | Inr jsNote \<Rightarrow>
               (case build_js w (proofInputBuilder (numberToString w) pmSetupInput) of
                  Inl e \<Rightarrow> Inl (Thrown e)
                | Inr proofInput \<Rightarrow>
                    (case generate_proof_js w jsNote proofInput of
                       Inl e \<Rightarrow> Inl (Thrown e)
                     | Inr p \<Rightarrow>
                         Inr \<lparr>proofBytes = wasmProof p, root = wasmRoot p,
                              nullifierHash = wasmNullifierHash p\<rparr>))))"

text \<open>
  The worker. The handler of a message is asynchronous: for a \<^verbatim>\<open>proof\<close> message it starts
  the computation and suspends, and the answer is posted when the computation has settled,
  which is a later turn of the event loop; other messages may be handled in between. The
  state holds the inputs whose computation has not settled yet, the answers posted so far,
  and the errors with which handlers were rejected.

  For a \<^verbatim>\<open>destroy\<close> message the handler calls \<^verbatim>\<open>terminate\<close> on \<^verbatim>\<open>self\<close>, cast to \<^verbatim>\<open>Worker\<close>. Inside
  the worker \<^verbatim>\<open>self\<close> is the worker's global scope, which has \<^verbatim>\<open>close\<close> and \<^verbatim>\<open>postMessage\<close> and no
  \<^verbatim>\<open>terminate\<close>; that method belongs to the \<^verbatim>\<open>Worker\<close> object of the thread that created the
  worker. The call of the missing method throws a TypeError, the handler is rejected with
  it, and the worker goes on.
\<close>

record Response =
  name :: string
  data :: ProofI

record ('e, 'o) WorkerState =
  inflight :: "'o payload list"
  posted :: "Response list"
  rejections :: "'e thrown list"

definition startWorker :: "('e, 'o) WorkerState" where
  "startWorker = \<lparr>inflight = [], posted = [], rejections = []\<rparr>"

definition onMessage :: "('e, 'o) WorkerState \<Rightarrow> 'o message \<Rightarrow> ('e, 'o) WorkerState" where
  "onMessage st m =
     (case m of
        [] \<Rightarrow> st
      | (key, v) # others \<Rightarrow>
          if key = ''proof'' then st\<lparr>inflight := inflight st @ [v]\<rparr>
          else if key = ''destroy'' then st\<lparr>rejections := rejections st @ [TypeError]\<rparr>
          else st)"

definition onSettled ::
  "('n, 'i, 'e, 'o) externals \<Rightarrow> ('e, 'o) WorkerState \<Rightarrow> nat \<Rightarrow> ('e, 'o) WorkerState" where
  "onSettled w st k =
     (if length (inflight st) \<le> k then st
      else (case ProvingManagerWrapper_proof w (inflight st ! k) of
          Inl e \<Rightarrow>
            st\<lparr>inflight := take k (inflight st) @ drop (Suc k) (inflight st),
               rejections := rejections st @ [e]\<rparr>
        | Inr p \<Rightarrow>
            st\<lparr>inflight := take k (inflight st) @ drop (Suc k) (inflight st),
               posted := posted st @ [\<lparr>name = ''proof'', data = p\<rparr>]\<rparr>))"

datatype 'o turn = Receive "'o message" | Settle nat

fun workerStep ::
  "('n, 'i, 'e, 'o) externals \<Rightarrow> ('e, 'o) WorkerState \<Rightarrow> 'o turn \<Rightarrow> ('e, 'o) WorkerState" where
  "workerStep w st (Receive m) = onMessage st m"
| "workerStep w st (Settle k) = onSettled w st k"

definition runWorker ::
  "('n, 'i, 'e, 'o) externals \<Rightarrow> ('e, 'o) WorkerState \<Rightarrow> 'o turn list \<Rightarrow> ('e, 'o) WorkerState" where
  "runWorker w st turns = foldl (workerStep w) st turns"

text \<open>
  For the statements: the turns in which a message is received whose first key is \<^verbatim>\<open>proof\<close>.
\<close>

definition isProofMessage :: "'o turn \<Rightarrow> bool" where
  "isProofMessage t = (case t of Receive ((k, v) # others) \<Rightarrow> k = ''proof'' | _ \<Rightarrow> False)"

section \<open>Properties of the leaf fetcher\<close>

lemma loop_pages:
  assumes "j \<le> n"
    and "\<forall>k. j \<le> k \<and> k < n \<longrightarrow> (\<exists>p. pageOf g t k = Inr p \<and> p \<noteq> [])"
    and "pageOf g t n = Inr []"
  shows "fetchRPCTreeLeaves_loop g u t (511 * j) (511 * j + 511) acc calls =
    Some (Inr (acc @ concat (map (\<lambda>k. map u (projr (pageOf g t k))) [j..<n])),
          calls @ map pageWindow [j..<Suc n])"
  using assms
proof (induction "n - j" arbitrary: j acc calls)
  case 0
  then have "j = n" by simp
  with 0 show ?case
    by (subst fetchRPCTreeLeaves_loop.simps) (simp add: pageOf_def pageWindow_def)
next
  case (Suc d)
  then have lt: "j < n" by simp
  with Suc.prems obtain p where p: "pageOf g t j = Inr p" "p \<noteq> []" by blast
  have step: "fetchRPCTreeLeaves_loop g u t (511 * j) (511 * j + 511) acc calls =
      fetchRPCTreeLeaves_loop g u t (511 * Suc j) (511 * Suc j + 511)
        (acc @ map u p) (calls @ [pageWindow j])"
    using p
    by (subst fetchRPCTreeLeaves_loop.simps) (simp add: pageOf_def pageWindow_def add.commute)
  have ih: "fetchRPCTreeLeaves_loop g u t (511 * Suc j) (511 * Suc j + 511)
        (acc @ map u p) (calls @ [pageWindow j]) =
      Some (Inr ((acc @ map u p) @ concat (map (\<lambda>k. map u (projr (pageOf g t k))) [Suc j..<n])),
            (calls @ [pageWindow j]) @ map pageWindow [Suc j..<Suc n])"
    using Suc.hyps(2) Suc.prems lt by (intro Suc.hyps(1)) auto
  have l1: "[j..<n] = j # [Suc j..<n]" using lt by (simp add: upt_conv_Cons)
  have l2: "[j..<Suc n] = j # [Suc j..<Suc n]" using lt by (simp add: upt_conv_Cons)
  show ?case unfolding step ih l1 l2 using p by simp
qed

lemma fetch_pages:
  assumes "\<forall>k<n. \<exists>p. pageOf g t k = Inr p \<and> p \<noteq> []" and "pageOf g t n = Inr []"
  shows "fetchRPCTreeLeaves g u t =
    Some (Inr (concat (map (\<lambda>k. map u (projr (pageOf g t k))) [0..<n])),
          map pageWindow [0..<Suc n])"
  using loop_pages[of 0 n g t u "[]" "[]"] assms
  by (simp add: fetchRPCTreeLeaves_def)

lemma chunks_take:
  "concat (map (\<lambda>k. take 511 (drop (511 * k) xs)) [0..<n]) = take (511 * n) xs"
proof (induction n)
  case 0
  show ?case by simp
next
  case (Suc n)
  have "511 * Suc n = 511 * n + 511" by simp
  then have "take (511 * Suc n) xs = take (511 * n) xs @ take 511 (drop (511 * n) xs)"
    by (simp only: take_add)
  with Suc show ?case by simp
qed

lemma ceil_div: "nat \<lceil>real N / 511\<rceil> = (N + 510) div 511"
proof -
  have "\<lceil>real N / 511\<rceil> = \<lceil>real_of_int (int N) / real_of_int 511\<rceil>" by simp
  also have "\<dots> = - ((- int N) div 511)" unfolding ceiling_divide_eq_div by simp
  also have "\<dots> = int ((N + 510) div 511)" by (simp add: zdiv_int)
  finally show ?thesis by simp
qed

lemma fetch_tree:
  assumes serve: "\<forall>from to. g t from to = Inr (take (to - from) (drop from tree))"
  defines "c \<equiv> nat \<lceil>real (length tree) / 511\<rceil>"
  shows "fetchRPCTreeLeaves g u t = Some (Inr (map u tree), map pageWindow [0..<Suc c])"
    and "\<forall>k<c. \<exists>p. pageOf g t k = Inr p \<and> p \<noteq> []"
    and "pageOf g t c = Inr []"
proof -
  have c: "c = (length tree + 510) div 511" by (simp add: c_def ceil_div)
  have page: "pageOf g t k = Inr (take 511 (drop (511 * k) tree))" for k
    by (simp add: pageOf_def serve)
  have small: "511 * k < length tree" if "k < c" for k
    using that unfolding c by linarith
  have big: "length tree \<le> 511 * c" unfolding c by linarith
  show ne: "\<forall>k<c. \<exists>p. pageOf g t k = Inr p \<and> p \<noteq> []"
  proof (intro allI impI)
    fix k assume "k < c"
    from small[OF this] show "\<exists>p. pageOf g t k = Inr p \<and> p \<noteq> []" by (simp add: page)
  qed
  show em: "pageOf g t c = Inr []" using big by (simp add: page)
  have "concat (map (\<lambda>k. map u (projr (pageOf g t k))) [0..<c]) =
        map u (concat (map (\<lambda>k. take 511 (drop (511 * k) tree)) [0..<c]))"
    by (simp add: page map_concat comp_def)
  also have "\<dots> = map u tree" using big by (simp add: chunks_take)
  finally show "fetchRPCTreeLeaves g u t = Some (Inr (map u tree), map pageWindow [0..<Suc c])"
    using fetch_pages[OF ne em, of u] by simp
qed

lemma loop_agree_Some:
  fixes g :: "('t, 'l, 'e) getLeaves" and u :: "'l \<Rightarrow> 'u"
  assumes run: "fetchRPCTreeLeaves_loop g u t from to acc calls = Some y"
    and agree: "\<forall>k. pageOf g t k = pageOf g2 t k"
    and aligned: "511 dvd from" "to = from + 511"
  shows "fetchRPCTreeLeaves_loop g2 u t from to acc calls = Some y"
proof -
  let ?P = "\<lambda>g u t from to acc calls y.
     (\<forall>k. pageOf g t k = pageOf g2 t k) \<longrightarrow> 511 dvd from \<longrightarrow> to = from + 511 \<longrightarrow>
     fetchRPCTreeLeaves_loop g2 u t from to acc calls = Some y"
  have "?P g u t from to acc calls y"
  proof (rule fetchRPCTreeLeaves_loop.raw_induct[where P = ?P, OF _ run])
    fix loop :: "('t, 'l, 'e) getLeaves \<Rightarrow> ('l \<Rightarrow> 'u) \<Rightarrow> 't \<Rightarrow> nat \<Rightarrow> nat \<Rightarrow> 'u list \<Rightarrow> window list
        \<Rightarrow> (('e + 'u list) \<times> window list) option"
      and g u t "from" to acc calls y
    assume IH: "\<And>g u t from to acc calls y.
        loop g u t from to acc calls = Some y \<Longrightarrow> ?P g u t from to acc calls y"
      and body: "(case g t from to of
          Inl e \<Rightarrow> Some (Inl e, calls @ [(from, to)])
        | Inr treeLeaves \<Rightarrow>
            if length treeLeaves = 0 then Some (Inr acc, calls @ [(from, to)])
            else loop g u t to (to + 511) (acc @ map u treeLeaves) (calls @ [(from, to)])) = Some y"
    show "?P g u t from to acc calls y"
    proof (intro impI)
      assume agree: "\<forall>k. pageOf g t k = pageOf g2 t k" and dv: "511 dvd from"
        and to: "to = from + 511"
      from dv obtain j where j: "from = 511 * j" by (auto simp: dvd_def)
      have same: "g2 t from to = g t from to"
        using agree[rule_format, of j] by (simp add: pageOf_def j to)
      have dv': "511 dvd to" using dv to by simp
      show "fetchRPCTreeLeaves_loop g2 u t from to acc calls = Some y"
        using body IH agree dv'
        by (subst fetchRPCTreeLeaves_loop.simps) (auto simp: same split: sum.splits if_splits)
    qed
  qed
  with agree aligned show ?thesis by simp
qed

lemma loop_agree:
  assumes "\<forall>k. pageOf g1 t k = pageOf g2 t k" "511 dvd from"
  shows "fetchRPCTreeLeaves_loop g1 u t from (from + 511) acc calls =
         fetchRPCTreeLeaves_loop g2 u t from (from + 511) acc calls"
proof (cases "fetchRPCTreeLeaves_loop g1 u t from (from + 511) acc calls")
  case (Some y)
  then show ?thesis using loop_agree_Some[OF Some assms(1) assms(2)] by simp
next
  case None
  show ?thesis
  proof (cases "fetchRPCTreeLeaves_loop g2 u t from (from + 511) acc calls")
    case None': None
    with None show ?thesis by simp
  next
    case (Some y)
    have "\<forall>k. pageOf g2 t k = pageOf g1 t k" using assms(1) by simp
    with loop_agree_Some[OF Some _ assms(2), of g1] None show ?thesis by simp
  qed
qed

text \<open>
  C1. Whatever the RPC, when its first \<open>n\<close> windows of 511 indices hold non-empty pages and
  the next one holds the empty page, \<^verbatim>\<open>fetchRPCTreeLeaves\<close> returns: it has requested exactly
  the windows \<open>0, \<dots>, n\<close> in this order, starting at \<open>[0, 511)\<close>, and its result is the \<open>n\<close>
  non-empty pages one after the other, without the empty one. Against an RPC that serves
  the slice \<open>[from, to)\<close> of a tree of \<open>N\<close> leaves, it returns the \<open>N\<close> leaves of the tree in
  their order after \<open>\<lceil>N / 511\<rceil>\<close> requests that were answered with a non-empty page and one
  that was answered with the empty page. In particular 511 leaves for \<open>[0, 511)\<close>, 200 for
  \<open>[511, 1022)\<close> and none for \<open>[1022, 1533)\<close> give 711 leaves after exactly three requests.
\<close>

theorem C1_fetchRPCTreeLeaves_pages:
  "((\<forall>k<n. \<exists>p. pageOf getLeaves treeId k = Inr p \<and> p \<noteq> []) \<and> pageOf getLeaves treeId n = Inr []
      \<longrightarrow> fetchRPCTreeLeaves getLeaves toU8a treeId =
            Some (Inr (concat (map (\<lambda>k. map toU8a (projr (pageOf getLeaves treeId k))) [0..<n])),
                  map pageWindow [0..<Suc n]))
   \<and> ((\<forall>from to. getLeaves treeId from to = Inr (take (to - from) (drop from tree)))
      \<longrightarrow> fetchRPCTreeLeaves getLeaves toU8a treeId =
            Some (Inr (map toU8a tree), map pageWindow [0..<Suc (nat \<lceil>real (length tree) / 511\<rceil>)])
          \<and> length (map toU8a tree) = length tree
          \<and> (\<forall>k < nat \<lceil>real (length tree) / 511\<rceil>. \<exists>p. pageOf getLeaves treeId k = Inr p \<and> p \<noteq> [])
          \<and> pageOf getLeaves treeId (nat \<lceil>real (length tree) / 511\<rceil>) = Inr [])
   \<and> (getLeaves treeId 0 511 = Inr p0 \<and> length p0 = 511
        \<and> getLeaves treeId 511 1022 = Inr p1 \<and> length p1 = 200
        \<and> getLeaves treeId 1022 1533 = Inr []
      \<longrightarrow> fetchRPCTreeLeaves getLeaves toU8a treeId =
            Some (Inr (map toU8a (p0 @ p1)), [(0, 511), (511, 1022), (1022, 1533)])
          \<and> length (map toU8a (p0 @ p1)) = 711)"
proof (intro conjI impI)
  assume "(\<forall>k<n. \<exists>p. pageOf getLeaves treeId k = Inr p \<and> p \<noteq> []) \<and> pageOf getLeaves treeId n = Inr []"
  then show "fetchRPCTreeLeaves getLeaves toU8a treeId =
      Some (Inr (concat (map (\<lambda>k. map toU8a (projr (pageOf getLeaves treeId k))) [0..<n])),
            map pageWindow [0..<Suc n])"
    using fetch_pages[of n getLeaves treeId toU8a] by blast
next
  assume s: "\<forall>from to. getLeaves treeId from to = Inr (take (to - from) (drop from tree))"
  show "fetchRPCTreeLeaves getLeaves toU8a treeId =
      Some (Inr (map toU8a tree), map pageWindow [0..<Suc (nat \<lceil>real (length tree) / 511\<rceil>)])"
    by (rule fetch_tree(1)[where g = getLeaves and t = treeId and tree = tree, OF s])
  show "length (map toU8a tree) = length tree" by simp
  show "\<forall>k < nat \<lceil>real (length tree) / 511\<rceil>. \<exists>p. pageOf getLeaves treeId k = Inr p \<and> p \<noteq> []"
    by (rule fetch_tree(2)[where g = getLeaves and t = treeId and tree = tree, OF s])
  show "pageOf getLeaves treeId (nat \<lceil>real (length tree) / 511\<rceil>) = Inr []"
    by (rule fetch_tree(3)[where g = getLeaves and t = treeId and tree = tree, OF s])
next
  assume a: "getLeaves treeId 0 511 = Inr p0 \<and> length p0 = 511
        \<and> getLeaves treeId 511 1022 = Inr p1 \<and> length p1 = 200
        \<and> getLeaves treeId 1022 1533 = Inr []"
  then have ne: "p0 \<noteq> []" "p1 \<noteq> []" by auto
  show "fetchRPCTreeLeaves getLeaves toU8a treeId =
      Some (Inr (map toU8a (p0 @ p1)), [(0, 511), (511, 1022), (1022, 1533)])"
    unfolding fetchRPCTreeLeaves_def
    apply (subst fetchRPCTreeLeaves_loop.simps)
    apply (simp add: a ne)
    apply (subst fetchRPCTreeLeaves_loop.simps)
    apply (simp add: a ne)
    apply (subst fetchRPCTreeLeaves_loop.simps)
    apply (simp add: a ne)
    done
  show "length (map toU8a (p0 @ p1)) = 711" using a by simp
qed

theorem C1_fetchRPCTreeLeaves_pages_witness:
  "fetchRPCTreeLeaves
     (\<lambda>t from to. Inr (take (to - from) (drop from (replicate 711 t))) :: unit + nat list)
     Suc (7 :: nat) =
   Some (Inr (replicate 711 8), [(0, 511), (511, 1022), (1022, 1533)])"
proof -
  let ?g = "\<lambda>t from to. Inr (take (to - from) (drop from (replicate 711 t))) :: unit + nat list"
  note pages = C1_fetchRPCTreeLeaves_pages[of 2 ?g 7 Suc "replicate 711 7"
      "replicate 511 7" "replicate 200 7"]
  have h1: "(\<forall>k<2. \<exists>p. pageOf ?g 7 k = Inr p \<and> p \<noteq> []) \<and> pageOf ?g 7 2 = Inr []"
    by (simp add: pageOf_def less_Suc_eq numeral_2_eq_2)
  have h2: "\<forall>from to. ?g 7 from to = Inr (take (to - from) (drop from (replicate 711 7)))"
    by simp
  have h3: "?g 7 0 511 = Inr (replicate 511 7) \<and> length (replicate 511 (7::nat)) = 511
      \<and> ?g 7 511 1022 = Inr (replicate 200 7) \<and> length (replicate 200 (7::nat)) = 200
      \<and> ?g 7 1022 1533 = Inr []"
    by simp
  from pages h1 have "fetchRPCTreeLeaves ?g Suc 7 =
      Some (Inr (concat (map (\<lambda>k. map Suc (projr (pageOf ?g 7 k))) [0..<2])),
            map pageWindow [0..<Suc 2])"
    by blast
  moreover from pages h2 have "fetchRPCTreeLeaves ?g Suc 7 =
      Some (Inr (map Suc (replicate 711 7)),
            map pageWindow [0..<Suc (nat \<lceil>real (length (replicate 711 (7::nat))) / 511\<rceil>)])"
    by blast
  moreover from pages h3 have "fetchRPCTreeLeaves ?g Suc 7 =
      Some (Inr (map Suc (replicate 511 7 @ replicate 200 7)), [(0, 511), (511, 1022), (1022, 1533)])"
    by blast
  ultimately show ?thesis by (simp add: replicate_add[symmetric])
qed

text \<open>
  C9. Two runs for the same tree, the second against an RPC that answers every window of
  511 indices as the RPC of the first run did, have the same outcome: the same leaves after
  the same requests, the same error, or no return for either.
\<close>

theorem C9_fetchRPCTreeLeaves_idempotent:
  "(\<forall>k. pageOf getLeaves1 treeId k = pageOf getLeaves2 treeId k) \<Longrightarrow>
   fetchRPCTreeLeaves getLeaves1 toU8a treeId = fetchRPCTreeLeaves getLeaves2 toU8a treeId"
  unfolding fetchRPCTreeLeaves_def
  using loop_agree[of getLeaves1 treeId getLeaves2 0 toU8a "[]" "[]"] by simp

theorem C9_fetchRPCTreeLeaves_idempotent_witness:
  "fetchRPCTreeLeaves
     (\<lambda>t from to. Inr (take (to - from) (drop from [1, 2, 3 :: nat])) :: unit + nat list) id (0 :: nat) =
   fetchRPCTreeLeaves
     (\<lambda>t from to. if 511 dvd from \<and> to = from + 511
        then Inr (take 511 (drop from [1, 2, 3 :: nat])) else Inl ()) id (0 :: nat)"
  by (rule C9_fetchRPCTreeLeaves_idempotent) (simp add: pageOf_def)

section \<open>Properties of the submission\<close>

lemma resolve_settled: "p \<noteq> Pending \<Longrightarrow> resolve v p = p"
  by (cases p) (simp_all add: resolve_def)

lemma reject_settled: "p \<noteq> Pending \<Longrightarrow> reject r p = p"
  by (cases p) (simp_all add: reject_def)

lemma resolve_Pending: "resolve v Pending = Fulfilled v"
  by (simp add: resolve_def)

lemma reject_Pending: "reject r Pending = Rejected r"
  by (simp add: reject_def)

lemma extrinsicFailed_settled: "p \<noteq> Pending \<Longrightarrow> extrinsicFailed f d p = p"
  by (simp add: extrinsicFailed_def reject_settled Let_def split: sum.splits)

lemma extrinsicFailed_Pending:
  "extrinsicFailed f d Pending =
     Rejected (Message
       (if isModule d
        then (case f (asModule d) of
                Inr err \<Rightarrow> errorSection err @ ''.'' @ errorName err
              | Inl thrown \<Rightarrow> type d)
        else if isToken d then type d @ ''.'' @ tokenType (asToken d)
        else type d))"
  by (simp add: extrinsicFailed_def reject_def Let_def split: sum.splits)

lemma extrinsicFailed_not_Pending: "extrinsicFailed f d p \<noteq> Pending"
  by (cases "p = Pending") (simp_all add: extrinsicFailed_Pending extrinsicFailed_settled)

lemma handleEvents_settled: "p \<noteq> Pending \<Longrightarrow> handleEvents f h es p = p"
  by (induction es arbitrary: p)
     (simp_all add: extrinsicFailed_settled resolve_settled split: list.splits)

lemma statusCallback_observed:
  "statusCallback f h r p = handleEvents f h (observedEvents r) p"
  by (simp add: statusCallback_def observedEvents_def)

lemma statusCallback_settled: "p \<noteq> Pending \<Longrightarrow> statusCallback f h r p = p"
  by (simp add: statusCallback_observed handleEvents_settled)

lemma listening_foldl: "listening (foldl (deliver f h) c us) = listening c"
  by (induction us arbitrary: c) (simp_all add: deliver_def)

lemma promise_foldl:
  "listening c \<Longrightarrow>
   promise (foldl (deliver f h) c us) = foldl (\<lambda>p r. statusCallback f h r p) (promise c) us"
  by (induction us arbitrary: c) (simp_all add: deliver_def)

lemma polkadotTx_promise:
  "promise (polkadotTx f h (Subscribed us)) = foldl (\<lambda>p r. statusCallback f h r p) Pending us"
  by (simp add: polkadotTx_def promise_foldl)

lemma callbacks_settled:
  "p \<noteq> Pending \<Longrightarrow> foldl (\<lambda>p r. statusCallback f h r p) p us = p"
  by (induction us) (simp_all add: statusCallback_settled)

lemma handleEvents_Fulfilled:
  "handleEvents f h es p = Fulfilled v \<Longrightarrow>
   p = Fulfilled v \<or> (v = h \<and> (\<exists>e\<in>set es. eventMethod e = ''ExtrinsicSuccess''))"
proof (induction es arbitrary: p)
  case Nil
  then show ?case by simp
next
  case (Cons e es)
  show ?case
  proof (cases "p = Pending")
    case False
    from Cons.prems show ?thesis unfolding handleEvents_settled[OF False] by simp
  next
    case True
    show ?thesis
    proof (cases "eventMethod e = ''ExtrinsicFailed''")
      case failed: True
      show ?thesis
      proof (cases "eventData e")
        case Nil
        with Cons.prems True failed show ?thesis by simp
      next
        case (Cons d ds)
        have np: "extrinsicFailed f d p \<noteq> Pending" by (rule extrinsicFailed_not_Pending)
        have "handleEvents f h es (extrinsicFailed f d p) = extrinsicFailed f d p"
          by (rule handleEvents_settled[OF np])
        with Cons.prems failed Cons have "extrinsicFailed f d p = Fulfilled v" by simp
        with True show ?thesis by (simp add: extrinsicFailed_Pending)
      qed
    next
      case False
      show ?thesis
      proof (cases "eventMethod e = ''ExtrinsicSuccess''")
        case success: True
        with Cons.prems True False show ?thesis
          by (simp add: resolve_Pending handleEvents_settled)
      next
        case other: False
        with Cons.prems False have "handleEvents f h es p = Fulfilled v" by simp
        from Cons.IH[OF this] show ?thesis by auto
      qed
    qed
  qed
qed

lemma callbacks_Fulfilled:
  "foldl (\<lambda>p r. statusCallback f h r p) p us = Fulfilled v \<Longrightarrow>
   p = Fulfilled v \<or>
   (v = h \<and> (\<exists>u\<in>set us. \<exists>e\<in>set (observedEvents u). eventMethod e = ''ExtrinsicSuccess''))"
proof (induction us arbitrary: p)
  case Nil
  then show ?case by simp
next
  case (Cons u us)
  from Cons.prems have "foldl (\<lambda>p r. statusCallback f h r p) (statusCallback f h u p) us = Fulfilled v"
    by simp
  from Cons.IH[OF this] show ?case
  proof
    assume "statusCallback f h u p = Fulfilled v"
    then have "handleEvents f h (observedEvents u) p = Fulfilled v"
      by (simp add: statusCallback_observed)
    from handleEvents_Fulfilled[OF this] show ?thesis by auto
  next
    assume "v = h \<and> (\<exists>u\<in>set us. \<exists>e\<in>set (observedEvents u). eventMethod e = ''ExtrinsicSuccess'')"
    then show ?thesis by auto
  qed
qed

lemma handleEvents_no_failure:
  fixes p :: "(string, 'e reason) promise"
  shows "\<forall>e\<in>set es. eventMethod e \<noteq> ''ExtrinsicFailed'' \<Longrightarrow>
   handleEvents f h es p =
     (if \<exists>e\<in>set es. eventMethod e = ''ExtrinsicSuccess'' then resolve h p else p)"
proof (induction es arbitrary: p)
  case Nil
  show ?case by simp
next
  case (Cons e es)
  have ih: "handleEvents f h es q =
      (if \<exists>e\<in>set es. eventMethod e = ''ExtrinsicSuccess'' then resolve h q else q)"
    for q :: "(string, 'e reason) promise"
    using Cons.IH[of q] Cons.prems by simp
  have rr: "resolve h (resolve h p) = resolve h p"
    by (cases p) (simp_all add: resolve_def)
  from Cons.prems show ?case by (simp add: ih rr)
qed

lemma handleEvents_append:
  "\<forall>e\<in>set es1. eventMethod e \<noteq> ''ExtrinsicFailed'' \<Longrightarrow>
   handleEvents f h (es1 @ es2) p = handleEvents f h es2 (handleEvents f h es1 p)"
  by (induction es1 arbitrary: p) simp_all

lemma callbacks_no_failure:
  fixes q :: "(string, 'e reason) promise"
  assumes "\<forall>u\<in>set us. \<forall>e\<in>set (observedEvents u). eventMethod e \<noteq> ''ExtrinsicFailed''"
    and "q = foldl (\<lambda>p r. statusCallback f h r p) Pending us"
  shows "q = Pending \<or> q = Fulfilled h"
  using assms
proof (induction us arbitrary: q rule: rev_induct)
  case Nil
  then show ?case by simp
next
  case (snoc u us)
  let ?q = "foldl (\<lambda>p r. statusCallback f h r p) (Pending :: (string, 'e reason) promise) us"
  have ih: "?q = Pending \<or> ?q = Fulfilled h"
    using snoc.IH[of ?q] snoc.prems(1) by simp
  have nf: "\<forall>e\<in>set (observedEvents u). eventMethod e \<noteq> ''ExtrinsicFailed''"
    using snoc.prems(1) by simp
  have "q = handleEvents f h (observedEvents u) ?q"
    using snoc.prems(2) by (simp add: statusCallback_observed)
  with ih show ?case
    by (auto simp: handleEvents_no_failure[OF nf] resolve_def)
qed

lemma handleEvents_Pending:
  "handleEvents f h es p \<noteq> Pending \<Longrightarrow>
   p \<noteq> Pending \<or>
   (\<exists>e\<in>set es. eventMethod e = ''ExtrinsicSuccess'' \<or> eventMethod e = ''ExtrinsicFailed'')"
proof (induction es arbitrary: p)
  case Nil
  then show ?case by simp
next
  case (Cons e es)
  show ?case
  proof (cases "eventMethod e = ''ExtrinsicSuccess'' \<or> eventMethod e = ''ExtrinsicFailed''")
    case True
    then show ?thesis by auto
  next
    case False
    with Cons.prems have "handleEvents f h es p \<noteq> Pending" by simp
    from Cons.IH[OF this] show ?thesis by auto
  qed
qed

lemma handleEvents_terminal:
  "\<forall>e\<in>set es. eventMethod e = ''ExtrinsicFailed'' \<longrightarrow> eventData e \<noteq> [] \<Longrightarrow>
   \<exists>e\<in>set es. eventMethod e = ''ExtrinsicSuccess'' \<or> eventMethod e = ''ExtrinsicFailed'' \<Longrightarrow>
   handleEvents f h es p \<noteq> Pending"
proof (induction es arbitrary: p)
  case Nil
  then show ?case by simp
next
  case (Cons e es)
  show ?case
  proof (cases "p = Pending")
    case False
    then show ?thesis unfolding handleEvents_settled[OF False] .
  next
    case True
    show ?thesis
    proof (cases "eventMethod e = ''ExtrinsicFailed''")
      case failed: True
      with Cons.prems(1) obtain d ds where "eventData e = d # ds"
        by (cases "eventData e") auto
      with failed show ?thesis
        using handleEvents_settled[OF extrinsicFailed_not_Pending, of f h es f d p]
        by (simp add: extrinsicFailed_not_Pending)
    next
      case False
      show ?thesis
      proof (cases "eventMethod e = ''ExtrinsicSuccess''")
        case success: True
        with False True show ?thesis by (simp add: resolve_Pending handleEvents_settled)
      next
        case other: False
        with False Cons.prems Cons.IH[of p] show ?thesis by auto
      qed
    qed
  qed
qed

lemma callbacks_Pending:
  "foldl (\<lambda>p r. statusCallback f h r p) p us \<noteq> Pending \<Longrightarrow>
   p \<noteq> Pending \<or>
   (\<exists>u\<in>set us. \<exists>e\<in>set (observedEvents u).
      eventMethod e = ''ExtrinsicSuccess'' \<or> eventMethod e = ''ExtrinsicFailed'')"
proof (induction us arbitrary: p)
  case Nil
  then show ?case by simp
next
  case (Cons u us)
  from Cons.prems have "foldl (\<lambda>p r. statusCallback f h r p) (statusCallback f h u p) us \<noteq> Pending"
    by simp
  from Cons.IH[OF this] show ?case
  proof
    assume "statusCallback f h u p \<noteq> Pending"
    then have "handleEvents f h (observedEvents u) p \<noteq> Pending"
      by (simp add: statusCallback_observed)
    from handleEvents_Pending[OF this] show ?thesis by auto
  next
    assume "\<exists>u\<in>set us. \<exists>e\<in>set (observedEvents u).
      eventMethod e = ''ExtrinsicSuccess'' \<or> eventMethod e = ''ExtrinsicFailed''"
    then show ?thesis by auto
  qed
qed

lemma callbacks_terminal:
  assumes wf: "\<forall>u\<in>set us. \<forall>e\<in>set (observedEvents u).
      eventMethod e = ''ExtrinsicFailed'' \<longrightarrow> eventData e \<noteq> []"
    and ex: "\<exists>u\<in>set us. \<exists>e\<in>set (observedEvents u).
      eventMethod e = ''ExtrinsicSuccess'' \<or> eventMethod e = ''ExtrinsicFailed''"
  shows "foldl (\<lambda>p r. statusCallback f h r p) p us \<noteq> Pending"
proof -
  from ex obtain u where u: "u \<in> set us" "\<exists>e\<in>set (observedEvents u).
      eventMethod e = ''ExtrinsicSuccess'' \<or> eventMethod e = ''ExtrinsicFailed''" by blast
  then obtain pre post where split: "us = pre @ u # post" by (meson split_list)
  have wfu: "\<forall>e\<in>set (observedEvents u). eventMethod e = ''ExtrinsicFailed'' \<longrightarrow> eventData e \<noteq> []"
    using wf u(1) by blast
  let ?q = "foldl (\<lambda>p r. statusCallback f h r p) p pre"
  have "statusCallback f h u ?q \<noteq> Pending"
    using handleEvents_terminal[OF wfu u(2)] by (simp add: statusCallback_observed)
  then show ?thesis by (simp add: split callbacks_settled)
qed

text \<open>
  C2. The promise of \<^verbatim>\<open>polkadotTx\<close> is fulfilled only with the hash of the extrinsic and only
  if some status update that is in a block or finalized carries an \<^verbatim>\<open>ExtrinsicSuccess\<close> event of
  the system module; an update without such an event fulfils no promise, and a failed
  submission fulfils none. Conversely the promise is fulfilled with the hash when such an
  event is observed and no \<^verbatim>\<open>ExtrinsicFailed\<close> event of the system module was observed before it
  on an update in a block or finalized.
\<close>

theorem C2_resolves_with_hash:
  "(promise (polkadotTx findMetaError hash (Subscribed results) :: 'e TxCall) = Fulfilled v \<longrightarrow>
      v = hash \<and>
      (\<exists>u\<in>set results. (isInBlock (status u) \<or> isFinalized (status u)) \<and>
         (\<exists>e\<in>set (events u). eventSection e = ''system'' \<and> eventMethod e = ''ExtrinsicSuccess'')))
   \<and> ((\<forall>e\<in>set (observedEvents result). eventMethod e \<noteq> ''ExtrinsicSuccess'') \<and>
        statusCallback findMetaError hash result (p :: (string, 'e reason) promise) = Fulfilled v \<longrightarrow> p = Fulfilled v)
   \<and> promise (polkadotTx findMetaError hash (SubmitFailed x) :: 'e TxCall) \<noteq> Fulfilled v
   \<and> (results = earlier @ result # later \<and>
        (isInBlock (status result) \<or> isFinalized (status result)) \<and>
        filter (\<lambda>e. eventSection e = ''system'') (events result) = evs1 @ event # evs2 \<and>
        eventMethod event = ''ExtrinsicSuccess'' \<and>
        (\<forall>e\<in>set evs1. eventMethod e \<noteq> ''ExtrinsicFailed'') \<and>
        (\<forall>u\<in>set earlier. \<forall>e\<in>set (observedEvents u). eventMethod e \<noteq> ''ExtrinsicFailed'')
      \<longrightarrow> promise (polkadotTx findMetaError hash (Subscribed results) :: 'e TxCall) = Fulfilled hash)"
proof (intro conjI impI)
  assume "promise (polkadotTx findMetaError hash (Subscribed results) :: 'e TxCall) = Fulfilled v"
  then have "foldl (\<lambda>p r. statusCallback findMetaError hash r p)
      (Pending :: (string, 'e reason) promise) results = Fulfilled v"
    by (simp add: polkadotTx_promise)
  from callbacks_Fulfilled[OF this]
  have v: "v = hash"
    and ex: "\<exists>u\<in>set results. \<exists>e\<in>set (observedEvents u). eventMethod e = ''ExtrinsicSuccess''"
    by simp_all
  show "v = hash" by (rule v)
  from ex obtain u e where "u \<in> set results" "e \<in> set (observedEvents u)"
    "eventMethod e = ''ExtrinsicSuccess''" by blast
  then show "\<exists>u\<in>set results. (isInBlock (status u) \<or> isFinalized (status u)) \<and>
      (\<exists>e\<in>set (events u). eventSection e = ''system'' \<and> eventMethod e = ''ExtrinsicSuccess'')"
    by (intro bexI[of _ u]) (auto simp: observedEvents_def split: if_splits)
next
  assume a: "(\<forall>e\<in>set (observedEvents result). eventMethod e \<noteq> ''ExtrinsicSuccess'') \<and>
        statusCallback findMetaError hash result (p :: (string, 'e reason) promise) = Fulfilled v"
  then have "handleEvents findMetaError hash (observedEvents result) p = Fulfilled v"
    by (simp add: statusCallback_observed)
  from handleEvents_Fulfilled[OF this] a show "p = Fulfilled v" by blast
next
  show "promise (polkadotTx findMetaError hash (SubmitFailed x) :: 'e TxCall) \<noteq> Fulfilled v"
    by (simp add: polkadotTx_def reject_def)
next
  assume a: "results = earlier @ result # later \<and>
        (isInBlock (status result) \<or> isFinalized (status result)) \<and>
        filter (\<lambda>e. eventSection e = ''system'') (events result) = evs1 @ event # evs2 \<and>
        eventMethod event = ''ExtrinsicSuccess'' \<and>
        (\<forall>e\<in>set evs1. eventMethod e \<noteq> ''ExtrinsicFailed'') \<and>
        (\<forall>u\<in>set earlier. \<forall>e\<in>set (observedEvents u). eventMethod e \<noteq> ''ExtrinsicFailed'')"
  let ?cb = "\<lambda>p r. statusCallback findMetaError hash r p"
  let ?q = "foldl ?cb (Pending :: (string, 'e reason) promise) earlier"
  have q: "?q = Pending \<or> ?q = Fulfilled hash"
    using a by (intro callbacks_no_failure[of earlier _ findMetaError hash]) simp_all
  have obs: "observedEvents result = evs1 @ event # evs2"
    using a by (simp add: observedEvents_def)
  let ?q1 = "handleEvents findMetaError hash evs1 ?q"
  have q1: "?q1 = Pending \<or> ?q1 = Fulfilled hash"
    using a q by (auto simp: handleEvents_no_failure resolve_def)
  then have r: "resolve hash ?q1 = Fulfilled hash" by (auto simp: resolve_def)
  have "handleEvents findMetaError hash (observedEvents result) ?q =
        handleEvents findMetaError hash (event # evs2) ?q1"
    using a by (simp add: obs handleEvents_append)
  also have "\<dots> = handleEvents findMetaError hash evs2 (resolve hash ?q1)"
    using a by simp
  also have "\<dots> = Fulfilled hash" by (simp add: r handleEvents_settled)
  finally have "?cb ?q result = Fulfilled hash" by (simp add: statusCallback_observed)
  then have "foldl ?cb (Pending :: (string, 'e reason) promise) results = Fulfilled hash"
    using a by (simp add: callbacks_settled)
  then show "promise (polkadotTx findMetaError hash (Subscribed results) :: 'e TxCall) = Fulfilled hash"
    by (simp add: polkadotTx_promise)
qed

theorem C2_resolves_with_hash_witness:
  "promise (polkadotTx (\<lambda>m :: nat. Inl () :: unit + RegistryError) ''0xabc''
     (Subscribed
       [\<lparr>status = Ready, events = []\<rparr>,
        \<lparr>status = InBlock, events =
          [\<lparr>eventSection = ''balances'', eventMethod = ''Transfer'', eventData = []\<rparr>,
           \<lparr>eventSection = ''system'', eventMethod = ''ExtrinsicSuccess'', eventData = []\<rparr>]\<rparr>])
     :: unit TxCall) = Fulfilled ''0xabc''"
proof -
  let ?ok = "\<lparr>eventSection = ''system'', eventMethod = ''ExtrinsicSuccess'',
      eventData = [] :: nat DispatchError list\<rparr>"
  let ?tr = "\<lparr>eventSection = ''balances'', eventMethod = ''Transfer'',
      eventData = [] :: nat DispatchError list\<rparr>"
  let ?u0 = "\<lparr>status = Ready, events = [] :: nat EventRecord list\<rparr>"
  let ?u1 = "\<lparr>status = InBlock, events = [?tr, ?ok]\<rparr>"
  have h: "[?u0, ?u1] = [?u0] @ ?u1 # [] \<and>
        (isInBlock (status ?u1) \<or> isFinalized (status ?u1)) \<and>
        filter (\<lambda>e. eventSection e = ''system'') (events ?u1) = [] @ ?ok # [] \<and>
        eventMethod ?ok = ''ExtrinsicSuccess'' \<and>
        (\<forall>e\<in>set []. eventMethod e \<noteq> ''ExtrinsicFailed'') \<and>
        (\<forall>u\<in>set [?u0]. \<forall>e\<in>set (observedEvents u). eventMethod e \<noteq> ''ExtrinsicFailed'')"
    by (simp add: isInBlock_def isFinalized_def observedEvents_def)
  from C2_resolves_with_hash[of "\<lambda>m :: nat. Inl () :: unit + RegistryError" "''0xabc''" "[?u0, ?u1]" "''0xabc''" ?u1
      Pending "()" "[?u0]" "[]" "[]" ?ok "[]"] h
  show ?thesis by blast
qed

theorem C2_counterexample:
  "promise (polkadotTx (\<lambda>m :: nat. Inl () :: unit + RegistryError) ''0xabc''
     (Subscribed
       [\<lparr>status = InBlock, events =
          [\<lparr>eventSection = ''system'', eventMethod = ''ExtrinsicFailed'', eventData =
             [\<lparr>type = ''Token'', isModule = False, asModule = 0 :: nat, isToken = True,
               asToken = \<lparr>tokenType = ''Frozen''\<rparr>\<rparr>]\<rparr>]\<rparr>,
        \<lparr>status = Retracted, events = []\<rparr>,
        \<lparr>status = InBlock, events =
          [\<lparr>eventSection = ''system'', eventMethod = ''ExtrinsicSuccess'', eventData = []\<rparr>]\<rparr>,
        \<lparr>status = Finalized, events =
          [\<lparr>eventSection = ''system'', eventMethod = ''ExtrinsicSuccess'', eventData = []\<rparr>]\<rparr>])
     :: unit TxCall) = Rejected (Message ''Token.Frozen'')"
  by (simp add: polkadotTx_def deliver_def statusCallback_def isInBlock_def isFinalized_def
      extrinsicFailed_def resolve_def reject_def)

text \<open>
  C3. When a status update that is in a block or finalized carries an \<^verbatim>\<open>ExtrinsicFailed\<close> event
  of the system module with a dispatch error, and no \<^verbatim>\<open>ExtrinsicSuccess\<close> or \<^verbatim>\<open>ExtrinsicFailed\<close>
  event of the system module was observed before it, the promise is rejected with the
  message of the specification: section and name from the registry for an error of a
  module, the type tag when the lookup throws, type and subtype for a token error; and
  with the type tag for any other error.
\<close>

theorem C3_rejects_with_message:
  assumes "results = earlier @ result # later"
    and "isInBlock (status result) \<or> isFinalized (status result)"
    and "filter (\<lambda>e. eventSection e = ''system'') (events result) = evs1 @ event # evs2"
    and "eventMethod event = ''ExtrinsicFailed''"
    and "eventData event = dispatchError # rest"
    and "\<forall>e\<in>set evs1. eventMethod e \<noteq> ''ExtrinsicSuccess'' \<and> eventMethod e \<noteq> ''ExtrinsicFailed''"
    and "\<forall>u\<in>set earlier. \<forall>e\<in>set (observedEvents u).
           eventMethod e \<noteq> ''ExtrinsicSuccess'' \<and> eventMethod e \<noteq> ''ExtrinsicFailed''"
  shows "promise (polkadotTx findMetaError hash (Subscribed results) :: 'e TxCall) =
     Rejected (Message (case spec_failure_message findMetaError dispatchError of
                          Some s \<Rightarrow> s | None \<Rightarrow> type dispatchError))"
proof -
  let ?cb = "\<lambda>p r. statusCallback findMetaError hash r p"
  let ?q = "foldl ?cb (Pending :: (string, 'e reason) promise) earlier"
  let ?m = "case spec_failure_message findMetaError dispatchError of
              Some s \<Rightarrow> s | None \<Rightarrow> type dispatchError"
  have q: "?q = Pending"
    using callbacks_Pending[of findMetaError hash Pending earlier] assms(7) by blast
  have obs: "observedEvents result = evs1 @ event # evs2"
    using assms(2,3) by (simp add: observedEvents_def)
  have nf: "\<forall>e\<in>set evs1. eventMethod e \<noteq> ''ExtrinsicFailed''" using assms(6) by simp
  have ns: "\<not> (\<exists>e\<in>set evs1. eventMethod e = ''ExtrinsicSuccess'')" using assms(6) by simp
  have q1: "handleEvents findMetaError hash evs1 ?q = Pending"
    using ns by (simp add: handleEvents_no_failure[OF nf] q)
  have msg: "extrinsicFailed findMetaError dispatchError Pending = Rejected (Message ?m)"
    by (simp add: extrinsicFailed_Pending spec_failure_message_def split: sum.splits)
  have "handleEvents findMetaError hash (observedEvents result) ?q =
        handleEvents findMetaError hash (event # evs2)
          (handleEvents findMetaError hash evs1 ?q)"
    by (simp only: obs handleEvents_append[OF nf])
  also have "\<dots> = handleEvents findMetaError hash evs2 (Rejected (Message ?m))"
    using assms(4,5) by (simp add: q1 msg)
  also have "\<dots> = Rejected (Message ?m)" by (simp add: handleEvents_settled)
  finally have "?cb ?q result = Rejected (Message ?m)" by (simp add: statusCallback_observed)
  then have "foldl ?cb (Pending :: (string, 'e reason) promise) results = Rejected (Message ?m)"
    by (simp add: assms(1) callbacks_settled)
  then show ?thesis by (simp add: polkadotTx_promise)
qed

theorem C3_rejects_with_message_witness:
  "promise (polkadotTx (\<lambda>m :: nat. Inl () :: unit + RegistryError) ''0xabc''
     (Subscribed
       [\<lparr>status = InBlock, events =
          [\<lparr>eventSection = ''system'', eventMethod = ''ExtrinsicFailed'', eventData =
             [\<lparr>type = ''Token'', isModule = False, asModule = 0 :: nat, isToken = True,
               asToken = \<lparr>tokenType = ''Frozen''\<rparr>\<rparr>]\<rparr>]\<rparr>])
     :: unit TxCall) = Rejected (Message ''Token.Frozen'')"
proof -
  let ?d = "\<lparr>type = ''Token'', isModule = False, asModule = 0 :: nat, isToken = True,
      asToken = \<lparr>tokenType = ''Frozen''\<rparr>\<rparr>"
  let ?e = "\<lparr>eventSection = ''system'', eventMethod = ''ExtrinsicFailed'', eventData = [?d]\<rparr>"
  let ?u = "\<lparr>status = InBlock, events = [?e]\<rparr>"
  have "promise (polkadotTx (\<lambda>m :: nat. Inl () :: unit + RegistryError) ''0xabc''
          (Subscribed [?u]) :: unit TxCall) =
        Rejected (Message (case spec_failure_message (\<lambda>m :: nat. Inl () :: unit + RegistryError) ?d of
                             Some s \<Rightarrow> s | None \<Rightarrow> type ?d))"
    by (rule C3_rejects_with_message[of "[?u]" "[]" ?u "[]" "[]" ?e "[]" ?d "[]"])
       (simp_all add: isInBlock_def)
  then show ?thesis by (simp add: spec_failure_message_def)
qed

theorem C3_counterexample:
  "promise (polkadotTx (\<lambda>m :: nat. Inl () :: unit + RegistryError) ''0xabc''
     (Subscribed
       [\<lparr>status = InBlock, events =
          [\<lparr>eventSection = ''system'', eventMethod = ''ExtrinsicSuccess'', eventData = []\<rparr>]\<rparr>,
        \<lparr>status = Retracted, events = []\<rparr>,
        \<lparr>status = InBlock, events =
          [\<lparr>eventSection = ''system'', eventMethod = ''ExtrinsicFailed'', eventData =
             [\<lparr>type = ''Token'', isModule = False, asModule = 0 :: nat, isToken = True,
               asToken = \<lparr>tokenType = ''Frozen''\<rparr>\<rparr>]\<rparr>]\<rparr>])
     :: unit TxCall) = Fulfilled ''0xabc''"
  by (simp add: polkadotTx_def deliver_def statusCallback_def isInBlock_def isFinalized_def
      extrinsicFailed_def resolve_def reject_def)

text \<open>
  C6. A failed submission rejects the promise with the error of the transport, and no
  event is read. A promise that is settled stays as it is, whatever status updates and
  events follow: no call is both fulfilled and rejected, none is settled twice. A call
  whose updates in a block or finalized carry neither \<^verbatim>\<open>ExtrinsicSuccess\<close> nor
  \<^verbatim>\<open>ExtrinsicFailed\<close> of the system module is never settled; a call that observes one of the
  two is settled, provided every \<^verbatim>\<open>ExtrinsicFailed\<close> event carries its dispatch error.
\<close>

theorem C6_settles_at_most_once:
  "(polkadotTx findMetaError hash (SubmitFailed x) :: 'e TxCall) =
      \<lparr>promise = Rejected (TransportError x), listening = False\<rparr>
   \<and> (promise (polkadotTx findMetaError hash (Subscribed results) :: 'e TxCall) \<noteq> Pending \<longrightarrow>
        promise (polkadotTx findMetaError hash (Subscribed (results @ later)) :: 'e TxCall) =
        promise (polkadotTx findMetaError hash (Subscribed results) :: 'e TxCall))
   \<and> ((\<forall>u\<in>set results. \<forall>e\<in>set (observedEvents u).
          eventMethod e \<noteq> ''ExtrinsicSuccess'' \<and> eventMethod e \<noteq> ''ExtrinsicFailed'') \<longrightarrow>
        promise (polkadotTx findMetaError hash (Subscribed results) :: 'e TxCall) = Pending)
   \<and> ((\<forall>u\<in>set results. \<forall>e\<in>set (observedEvents u).
          eventMethod e = ''ExtrinsicFailed'' \<longrightarrow> eventData e \<noteq> []) \<and>
       (\<exists>u\<in>set results. \<exists>e\<in>set (observedEvents u).
          eventMethod e = ''ExtrinsicSuccess'' \<or> eventMethod e = ''ExtrinsicFailed'') \<longrightarrow>
        promise (polkadotTx findMetaError hash (Subscribed results) :: 'e TxCall) \<noteq> Pending)"
proof (intro conjI impI)
  show "(polkadotTx findMetaError hash (SubmitFailed x) :: 'e TxCall) =
      \<lparr>promise = Rejected (TransportError x), listening = False\<rparr>"
    by (simp add: polkadotTx_def reject_def)
next
  assume "promise (polkadotTx findMetaError hash (Subscribed results) :: 'e TxCall) \<noteq> Pending"
  then show "promise (polkadotTx findMetaError hash (Subscribed (results @ later)) :: 'e TxCall) =
      promise (polkadotTx findMetaError hash (Subscribed results) :: 'e TxCall)"
    by (simp add: polkadotTx_promise callbacks_settled)
next
  assume a: "\<forall>u\<in>set results. \<forall>e\<in>set (observedEvents u).
      eventMethod e \<noteq> ''ExtrinsicSuccess'' \<and> eventMethod e \<noteq> ''ExtrinsicFailed''"
  show "promise (polkadotTx findMetaError hash (Subscribed results) :: 'e TxCall) = Pending"
    using callbacks_Pending[of findMetaError hash "Pending :: (string, 'e reason) promise" results] a
    by (auto simp: polkadotTx_promise)
next
  assume a: "(\<forall>u\<in>set results. \<forall>e\<in>set (observedEvents u).
          eventMethod e = ''ExtrinsicFailed'' \<longrightarrow> eventData e \<noteq> []) \<and>
       (\<exists>u\<in>set results. \<exists>e\<in>set (observedEvents u).
          eventMethod e = ''ExtrinsicSuccess'' \<or> eventMethod e = ''ExtrinsicFailed'')"
  show "promise (polkadotTx findMetaError hash (Subscribed results) :: 'e TxCall) \<noteq> Pending"
    using callbacks_terminal[of results findMetaError hash "Pending :: (string, 'e reason) promise"] a
    by (simp add: polkadotTx_promise)
qed

theorem C6_settles_at_most_once_witness:
  "promise (polkadotTx (\<lambda>m :: nat. Inl () :: unit + RegistryError) ''0xabc''
     (Subscribed
       ([\<lparr>status = InBlock, events =
          [\<lparr>eventSection = ''system'', eventMethod = ''ExtrinsicSuccess'', eventData = []\<rparr>]\<rparr>] @
        [\<lparr>status = Finalized, events =
          [\<lparr>eventSection = ''system'', eventMethod = ''ExtrinsicFailed'', eventData =
             [\<lparr>type = ''BadOrigin'', isModule = False, asModule = 0 :: nat, isToken = False,
               asToken = \<lparr>tokenType = []\<rparr>\<rparr>]\<rparr>]\<rparr>]))
     :: unit TxCall) = Fulfilled ''0xabc''
   \<and> promise (polkadotTx (\<lambda>m :: nat. Inl () :: unit + RegistryError) ''0xabc''
        (Subscribed [\<lparr>status = Ready, events = []\<rparr>]) :: unit TxCall) = Pending"
proof -
  let ?f = "\<lambda>m :: nat. Inl () :: unit + RegistryError"
  let ?ok = "\<lparr>eventSection = ''system'', eventMethod = ''ExtrinsicSuccess'',
      eventData = [] :: nat DispatchError list\<rparr>"
  let ?u = "\<lparr>status = InBlock, events = [?ok]\<rparr>"
  let ?v = "\<lparr>status = Finalized, events =
          [\<lparr>eventSection = ''system'', eventMethod = ''ExtrinsicFailed'', eventData =
             [\<lparr>type = ''BadOrigin'', isModule = False, asModule = 0 :: nat, isToken = False,
               asToken = \<lparr>tokenType = []\<rparr>\<rparr>]\<rparr>]\<rparr>"
  let ?r = "\<lparr>status = Ready, events = [] :: nat EventRecord list\<rparr>"
  have first: "promise (polkadotTx ?f ''0xabc'' (Subscribed [?u]) :: unit TxCall) = Fulfilled ''0xabc''"
    by (simp add: polkadotTx_def deliver_def statusCallback_def isInBlock_def resolve_def)
  have none: "\<forall>u\<in>set [?r]. \<forall>e\<in>set (observedEvents u).
      eventMethod e \<noteq> ''ExtrinsicSuccess'' \<and> eventMethod e \<noteq> ''ExtrinsicFailed''"
    by (simp add: observedEvents_def isInBlock_def isFinalized_def)
  have some: "(\<forall>u\<in>set [?u]. \<forall>e\<in>set (observedEvents u).
          eventMethod e = ''ExtrinsicFailed'' \<longrightarrow> eventData e \<noteq> []) \<and>
       (\<exists>u\<in>set [?u]. \<exists>e\<in>set (observedEvents u).
          eventMethod e = ''ExtrinsicSuccess'' \<or> eventMethod e = ''ExtrinsicFailed'')"
    by (simp add: observedEvents_def isInBlock_def isFinalized_def)
  note once = C6_settles_at_most_once[where 'e = unit, of ?f "''0xabc''" "()" "[?u]" "[?v]"]
  note idle = C6_settles_at_most_once[where 'e = unit, of ?f "''0xabc''" "()" "[?r]" "[]"]
  from once some have "promise (polkadotTx ?f ''0xabc'' (Subscribed [?u]) :: unit TxCall) \<noteq> Pending"
    by blast
  with once have "promise (polkadotTx ?f ''0xabc'' (Subscribed ([?u] @ [?v])) :: unit TxCall) =
      promise (polkadotTx ?f ''0xabc'' (Subscribed [?u]) :: unit TxCall)"
    by blast
  moreover from idle none
  have "promise (polkadotTx ?f ''0xabc'' (Subscribed [?r]) :: unit TxCall) = Pending"
    by blast
  ultimately show ?thesis using first by simp
qed

theorem C6_counterexample:
  "promise (polkadotTx (\<lambda>m :: nat. Inl () :: unit + RegistryError) ''0xabc''
     (Subscribed
       [\<lparr>status = Ready, events = []\<rparr>,
        \<lparr>status = Broadcast, events = []\<rparr>,
        \<lparr>status = Dropped, events = []\<rparr>])
     :: unit TxCall) = Pending"
  by (simp add: polkadotTx_def deliver_def statusCallback_def isInBlock_def isFinalized_def)

text \<open>
  C8. \<^verbatim>\<open>polkadotTx\<close> never ends its subscription. After a submission that succeeded the
  callback is registered whatever has been delivered, also once the promise is settled,
  and every further status update is handed to it; a settled promise is not changed by
  that. Only a submission that failed leaves no callback registered.
\<close>

theorem C8_subscription_stays:
  "listening (polkadotTx findMetaError hash (Subscribed results) :: 'e TxCall)
   \<and> (polkadotTx findMetaError hash (Subscribed (results @ [result])) :: 'e TxCall) =
       (polkadotTx findMetaError hash (Subscribed results))
         \<lparr>promise := statusCallback findMetaError hash result
            (promise (polkadotTx findMetaError hash (Subscribed results) :: 'e TxCall))\<rparr>
   \<and> (promise (polkadotTx findMetaError hash (Subscribed results) :: 'e TxCall) \<noteq> Pending \<longrightarrow>
        (polkadotTx findMetaError hash (Subscribed (results @ [result])) :: 'e TxCall) =
        polkadotTx findMetaError hash (Subscribed results))
   \<and> \<not> listening (polkadotTx findMetaError hash (SubmitFailed x) :: 'e TxCall)"
proof -
  let ?c = "polkadotTx findMetaError hash (Subscribed results) :: 'e TxCall"
  have l: "listening ?c" by (simp add: polkadotTx_def listening_foldl)
  have step: "(polkadotTx findMetaError hash (Subscribed (results @ [result])) :: 'e TxCall) =
      ?c\<lparr>promise := statusCallback findMetaError hash result (promise ?c)\<rparr>"
    using l by (simp add: polkadotTx_def deliver_def)
  have "promise ?c \<noteq> Pending \<longrightarrow>
      (polkadotTx findMetaError hash (Subscribed (results @ [result])) :: 'e TxCall) = ?c"
    by (simp add: step statusCallback_settled)
  moreover have "\<not> listening (polkadotTx findMetaError hash (SubmitFailed x) :: 'e TxCall)"
    by (simp add: polkadotTx_def)
  ultimately show ?thesis using l step by blast
qed

theorem C8_subscription_stays_witness:
  "(polkadotTx (\<lambda>m :: nat. Inl () :: unit + RegistryError) ''0xabc''
     (Subscribed
       ([\<lparr>status = InBlock, events =
          [\<lparr>eventSection = ''system'', eventMethod = ''ExtrinsicSuccess'', eventData = []\<rparr>]\<rparr>] @
        [\<lparr>status = Finalized, events =
          [\<lparr>eventSection = ''system'', eventMethod = ''ExtrinsicSuccess'', eventData = []\<rparr>]\<rparr>]))
     :: unit TxCall) = \<lparr>promise = Fulfilled ''0xabc'', listening = True\<rparr>"
proof -
  let ?f = "\<lambda>m :: nat. Inl () :: unit + RegistryError"
  let ?ok = "\<lparr>eventSection = ''system'', eventMethod = ''ExtrinsicSuccess'',
      eventData = [] :: nat DispatchError list\<rparr>"
  let ?u = "\<lparr>status = InBlock, events = [?ok]\<rparr>"
  let ?v = "\<lparr>status = Finalized, events = [?ok]\<rparr>"
  have first: "(polkadotTx ?f ''0xabc'' (Subscribed [?u]) :: unit TxCall) =
      \<lparr>promise = Fulfilled ''0xabc'', listening = True\<rparr>"
    by (simp add: polkadotTx_def deliver_def statusCallback_def isInBlock_def resolve_def)
  from C8_subscription_stays[where 'e = unit, of ?f "''0xabc''" "[?u]" ?v "()"]
  have "promise (polkadotTx ?f ''0xabc'' (Subscribed [?u]) :: unit TxCall) \<noteq> Pending \<longrightarrow>
      (polkadotTx ?f ''0xabc'' (Subscribed ([?u] @ [?v])) :: unit TxCall) =
      polkadotTx ?f ''0xabc'' (Subscribed [?u])"
    by blast
  then show ?thesis by (simp add: first)
qed

theorem C8_counterexample:
  "(polkadotTx (\<lambda>m :: nat. Inl () :: unit + RegistryError) ''0xabc''
     (Subscribed
       [\<lparr>status = InBlock, events =
          [\<lparr>eventSection = ''system'', eventMethod = ''ExtrinsicSuccess'', eventData = []\<rparr>]\<rparr>])
     :: unit TxCall) = \<lparr>promise = Fulfilled ''0xabc'', listening = True\<rparr>"
  by (simp add: polkadotTx_def deliver_def statusCallback_def isInBlock_def resolve_def)

section \<open>Properties of the proving worker\<close>

lemma digitChar_value: "d < 10 \<Longrightarrow> of_char (digitChar d) = 48 + d"
proof -
  assume "d < 10"
  then have "d \<in> set [0..<10]" by simp
  then have "d \<in> {0, 1, 2, 3, 4, 5, 6, 7, 8, 9}" by (simp add: upt_rec numeral_eq_Suc)
  then show ?thesis by (auto simp: digitChar_def)
qed

lemma decimal_value: "foldl (\<lambda>a c. 10 * a + (of_char c - 48)) 0 (decimal n) = n"
proof (induction n rule: decimal.induct)
  case (1 n)
  show ?case
  proof (cases "n < 10")
    case True
    then show ?thesis by (subst decimal.simps) (simp add: digitChar_value)
  next
    case False
    have m: "n mod 10 < 10" by simp
    from False 1 have "foldl (\<lambda>a c. 10 * a + (of_char c - 48)) 0 (decimal (n div 10)) = n div 10"
      by simp
    with False show ?thesis
      by (subst decimal.simps) (simp add: digitChar_value[OF m])
  qed
qed

lemma String_safe:
  "\<bar>x\<bar> \<le> 9007199254740991 \<Longrightarrow>
   String_number toString (SafeInteger (Abs_safeint x)) =
     (if x < 0 then ''-'' @ decimal (nat (- x)) else decimal (nat x))"
  by (simp add: String_number_def Abs_safeint_inverse)

lemma replace_prefix: "pat \<noteq> [] \<Longrightarrow> replace pat rep (pat @ s) = rep @ s"
  by (cases pat) simp_all

lemma stripped_key: "replace ''0x'' [] (u8aToHex u) = concat (map hexByte u)"
  using replace_prefix[of "''0x''" "[]" "concat (map hexByte u)"]
  by (simp add: u8aToHex_def)

lemma builder_fields:
  "proofInputBuilder toString i =
     \<lparr>b_leaves = Some (leaves i), b_relayer = Some (relayer i), b_recipient = Some (recipient i),
      b_leafIndex = Some (String_number toString (leafIndex i)),
      b_fee = Some (String_number toString (fee i)),
      b_refund = Some (String_number toString (refund i)),
      b_pk = Some (concat (map hexByte (provingKey i)))\<rparr>"
  by (simp add: proofInputBuilder_def newManager_def setLeaves_def setRelayer_def
      setRecipient_def setLeafIndex_def setFee_def setRefund_def setPk_def stripped_key)

lemma settle_last:
  "onSettled w (st\<lparr>inflight := inflight st @ [v]\<rparr>) (length (inflight st)) =
     (case ProvingManagerWrapper_proof w v of
        Inl e \<Rightarrow> st\<lparr>rejections := rejections st @ [e]\<rparr>
      | Inr p \<Rightarrow> st\<lparr>posted := posted st @ [\<lparr>name = ''proof'', data = p\<rparr>]\<rparr>)"
  by (simp add: onSettled_def split: sum.splits)

lemma step_accounting:
  "length (posted (workerStep w st t)) + length (inflight (workerStep w st t)) \<le>
   length (posted st) + length (inflight st) + (if isProofMessage t then 1 else 0)"
proof (cases t)
  case (Receive m)
  then show ?thesis
    by (cases m) (auto simp: onMessage_def isProofMessage_def)
next
  case (Settle k)
  then show ?thesis
    by (auto simp: onSettled_def isProofMessage_def split: sum.splits)
qed

lemma run_accounting:
  "length (posted (runWorker w st turns)) + length (inflight (runWorker w st turns)) \<le>
   length (posted st) + length (inflight st) + length (filter isProofMessage turns)"
proof (induction turns arbitrary: st)
  case Nil
  show ?case by (simp add: runWorker_def)
next
  case (Cons t turns)
  have "runWorker w st (t # turns) = runWorker w (workerStep w st t) turns"
    by (simp add: runWorker_def)
  moreover note Cons.IH[of "workerStep w st t"] step_accounting[of w st t]
  ultimately show ?case by (cases "isProofMessage t") simp_all
qed

text \<open>
  C4. The method \<^verbatim>\<open>proof\<close> fills the builder with the leaves, the relayer, the recipient, what
  \<^verbatim>\<open>String\<close> makes of leaf index, fee and refund, and the proving key in hexadecimal digits
  without prefix. \<^verbatim>\<open>String\<close> of a safe integer is its decimal numeral, whose digits read back
  as the number; of any other number it is what the platform gives. The method succeeds
  exactly when deserializing the note, building the input and generating the proof all
  succeed, and its result holds the three fields of the generated proof. A \<^verbatim>\<open>proof\<close> message
  whose computation succeeds is answered with exactly one message named \<^verbatim>\<open>proof\<close> that carries
  this result; one whose computation throws is answered with nothing, the handler being
  rejected with what was thrown. The worker never posts more answers than it received
  \<^verbatim>\<open>proof\<close> messages.
\<close>

theorem C4_proof_message:
  "proofInputBuilder toString i =
     \<lparr>b_leaves = Some (leaves i), b_relayer = Some (relayer i), b_recipient = Some (recipient i),
      b_leafIndex = Some (String_number toString (leafIndex i)),
      b_fee = Some (String_number toString (fee i)),
      b_refund = Some (String_number toString (refund i)),
      b_pk = Some (concat (map hexByte (provingKey i)))\<rparr>
   \<and> (\<bar>x\<bar> \<le> 9007199254740991 \<longrightarrow>
        String_number toString (SafeInteger (Abs_safeint x)) =
          (if x < 0 then ''-'' @ decimal (nat (- x)) else decimal (nat x)))
   \<and> foldl (\<lambda>a c. 10 * a + (of_char c - 48)) 0 (decimal n) = n
   \<and> String_number toString (OtherNumber y) = toString y
   \<and> (ProvingManagerWrapper_proof w (Input i) = Inr r \<longleftrightarrow>
        (\<exists>jsNote proofInput p.
           deserialize w (noteString i) = Inr jsNote \<and>
           build_js w (proofInputBuilder (numberToString w) i) = Inr proofInput \<and>
           generate_proof_js w jsNote proofInput = Inr p \<and>
           r = \<lparr>proofBytes = wasmProof p, root = wasmRoot p,
                nullifierHash = wasmNullifierHash p\<rparr>))
   \<and> (ProvingManagerWrapper_proof w v = Inr r \<longrightarrow>
        runWorker w st [Receive ((''proof'', v) # others), Settle (length (inflight st))] =
        st\<lparr>posted := posted st @ [\<lparr>name = ''proof'', data = r\<rparr>]\<rparr>)
   \<and> (ProvingManagerWrapper_proof w v = Inl e \<longrightarrow>
        runWorker w st [Receive ((''proof'', v) # others), Settle (length (inflight st))] =
        st\<lparr>rejections := rejections st @ [e]\<rparr>)
   \<and> length (posted (runWorker w startWorker turns)) \<le> length (filter isProofMessage turns)"
proof (intro conjI impI)
  show "proofInputBuilder toString i =
     \<lparr>b_leaves = Some (leaves i), b_relayer = Some (relayer i), b_recipient = Some (recipient i),
      b_leafIndex = Some (String_number toString (leafIndex i)),
      b_fee = Some (String_number toString (fee i)),
      b_refund = Some (String_number toString (refund i)),
      b_pk = Some (concat (map hexByte (provingKey i)))\<rparr>"
    by (rule builder_fields)
next
  assume "\<bar>x\<bar> \<le> 9007199254740991"
  then show "String_number toString (SafeInteger (Abs_safeint x)) =
      (if x < 0 then ''-'' @ decimal (nat (- x)) else decimal (nat x))"
    by (rule String_safe)
next
  show "foldl (\<lambda>a c. 10 * a + (of_char c - 48)) 0 (decimal n) = n"
    by (rule decimal_value)
next
  show "String_number toString (OtherNumber y) = toString y"
    by (simp add: String_number_def)
next
  show "ProvingManagerWrapper_proof w (Input i) = Inr r \<longleftrightarrow>
        (\<exists>jsNote proofInput p.
           deserialize w (noteString i) = Inr jsNote \<and>
           build_js w (proofInputBuilder (numberToString w) i) = Inr proofInput \<and>
           generate_proof_js w jsNote proofInput = Inr p \<and>
           r = \<lparr>proofBytes = wasmProof p, root = wasmRoot p,
                nullifierHash = wasmNullifierHash p\<rparr>)"
    by (auto simp: ProvingManagerWrapper_proof_def split: sum.splits)
next
  assume "ProvingManagerWrapper_proof w v = Inr r"
  then show "runWorker w st [Receive ((''proof'', v) # others), Settle (length (inflight st))] =
        st\<lparr>posted := posted st @ [\<lparr>name = ''proof'', data = r\<rparr>]\<rparr>"
    by (simp add: runWorker_def onMessage_def settle_last)
next
  assume "ProvingManagerWrapper_proof w v = Inl e"
  then show "runWorker w st [Receive ((''proof'', v) # others), Settle (length (inflight st))] =
        st\<lparr>rejections := rejections st @ [e]\<rparr>"
    by (simp add: runWorker_def onMessage_def settle_last)
next
  show "length (posted (runWorker w startWorker turns)) \<le> length (filter isProofMessage turns)"
    using run_accounting[of w startWorker turns] by (simp add: startWorker_def)
qed

theorem C4_proof_message_witness:
  "runWorker
     \<lparr>deserialize = \<lambda>s. Inr (length s), build_js = \<lambda>b. Inr b,
      generate_proof_js = \<lambda>n b. Inr \<lparr>wasmProof = [1], wasmRoot = [2], wasmNullifierHash = [3]\<rparr>,
      numberToString = \<lambda>y :: nat. ''NaN''\<rparr>
     (startWorker :: (string, nat) WorkerState)
     [Receive [(''proof'', Input \<lparr>noteString = ''webb.mix'', relayer = ''r'', recipient = ''t'',
         leaves = [[1, 2]], leafIndex = SafeInteger (Abs_safeint 0),
         fee = SafeInteger (Abs_safeint 12), refund = SafeInteger (Abs_safeint 5),
         provingKey = [171, 1]\<rparr>)],
      Settle 0] =
   \<lparr>inflight = [],
    posted = [\<lparr>name = ''proof'',
               data = \<lparr>proofBytes = [1], root = [2], nullifierHash = [3]\<rparr>\<rparr>],
    rejections = []\<rparr>
   \<and> proofInputBuilder (\<lambda>y :: nat. ''NaN'')
       \<lparr>noteString = ''webb.mix'', relayer = ''r'', recipient = ''t'',
         leaves = [[1, 2]], leafIndex = SafeInteger (Abs_safeint 0),
         fee = SafeInteger (Abs_safeint 12), refund = SafeInteger (Abs_safeint 5),
         provingKey = [171, 1]\<rparr> =
     \<lparr>b_leaves = Some [[1, 2]], b_relayer = Some ''r'', b_recipient = Some ''t'',
      b_leafIndex = Some ''0'', b_fee = Some ''12'', b_refund = Some ''5'', b_pk = Some ''ab01''\<rparr>"
proof -
  let ?w = "\<lparr>deserialize = \<lambda>s. Inr (length s), build_js = \<lambda>b. Inr b,
      generate_proof_js = \<lambda>n b. Inr \<lparr>wasmProof = [1], wasmRoot = [2], wasmNullifierHash = [3]\<rparr>,
      numberToString = \<lambda>y :: nat. ''NaN''\<rparr>
      :: (nat, JsProofInputBuilder, string, nat) externals"
  let ?i = "\<lparr>noteString = ''webb.mix'', relayer = ''r'', recipient = ''t'',
         leaves = [[1, 2]], leafIndex = SafeInteger (Abs_safeint 0),
         fee = SafeInteger (Abs_safeint 12), refund = SafeInteger (Abs_safeint 5),
         provingKey = [171, 1]\<rparr> :: nat ProvingManagerSetupInput"
  let ?r = "\<lparr>proofBytes = [1], root = [2], nullifierHash = [3]\<rparr>"
  let ?st = "startWorker :: (string, nat) WorkerState"
  note at12 = C4_proof_message[of "\<lambda>y :: nat. ''NaN''" ?i 12 0 0 ?w ?r "Input ?i" ?st
      "[]" "Thrown ''x''" "[]"]
  note at5 = C4_proof_message[of "\<lambda>y :: nat. ''NaN''" ?i 5 0 0 ?w ?r "Input ?i" ?st
      "[]" "Thrown ''x''" "[]"]
  note at0 = C4_proof_message[of "\<lambda>y :: nat. ''NaN''" ?i 0 0 0 ?w ?r "Input ?i" ?st
      "[]" "Thrown ''x''" "[]"]
  have run: "ProvingManagerWrapper_proof ?w (Input ?i) = Inr ?r"
    by (simp add: ProvingManagerWrapper_proof_def)
  from at12 run have "runWorker ?w ?st
      [Receive ((''proof'', Input ?i) # []), Settle (length (inflight ?st))] =
      ?st\<lparr>posted := posted ?st @ [\<lparr>name = ''proof'', data = ?r\<rparr>]\<rparr>"
    by blast
  then have answered: "runWorker ?w ?st [Receive [(''proof'', Input ?i)], Settle 0] =
      \<lparr>inflight = [], posted = [\<lparr>name = ''proof'', data = ?r\<rparr>], rejections = []\<rparr>"
    by (simp add: startWorker_def)
  from at12 have b: "proofInputBuilder (\<lambda>y :: nat. ''NaN'') ?i =
     \<lparr>b_leaves = Some (leaves ?i), b_relayer = Some (relayer ?i), b_recipient = Some (recipient ?i),
      b_leafIndex = Some (String_number (\<lambda>y :: nat. ''NaN'') (leafIndex ?i)),
      b_fee = Some (String_number (\<lambda>y :: nat. ''NaN'') (fee ?i)),
      b_refund = Some (String_number (\<lambda>y :: nat. ''NaN'') (refund ?i)),
      b_pk = Some (concat (map hexByte (provingKey ?i)))\<rparr>"
    by blast
  have s12: "String_number (\<lambda>y :: nat. ''NaN'') (SafeInteger (Abs_safeint 12)) = ''12''"
    using at12 by (simp add: decimal.simps digitChar_def)
  have s5: "String_number (\<lambda>y :: nat. ''NaN'') (SafeInteger (Abs_safeint 5)) = ''5''"
    using at5 by (simp add: decimal.simps digitChar_def)
  have s0: "String_number (\<lambda>y :: nat. ''NaN'') (SafeInteger (Abs_safeint 0)) = ''0''"
    using at0 by (simp add: decimal.simps digitChar_def)
  have "proofInputBuilder (\<lambda>y :: nat. ''NaN'') ?i =
     \<lparr>b_leaves = Some [[1, 2]], b_relayer = Some ''r'', b_recipient = Some ''t'',
      b_leafIndex = Some ''0'', b_fee = Some ''12'', b_refund = Some ''5'', b_pk = Some ''ab01''\<rparr>"
    unfolding b by (simp add: s12 s5 s0 hexByte_def digitChar_def)
  with answered show ?thesis by simp
qed

text \<open>
  Two messages at which the statement of C4 fails. The note of the first does not
  deserialize: the message is handled to the end and nothing is posted. The fee of the
  second is the number \<open>10 ^ 21\<close>, of which \<^verbatim>\<open>String\<close> is \<^verbatim>\<open>1e+21\<close>: the builder receives that
  string, which is no decimal numeral.
\<close>

theorem C4_counterexample:
  "runWorker
     \<lparr>deserialize = \<lambda>s. Inl ''invalid note'' :: string + nat, build_js = \<lambda>b. Inr b,
      generate_proof_js = \<lambda>n b. Inr \<lparr>wasmProof = [1], wasmRoot = [2], wasmNullifierHash = [3]\<rparr>,
      numberToString = \<lambda>y :: int. ''1e+21''\<rparr>
     (startWorker :: (string, int) WorkerState)
     [Receive [(''proof'', Input \<lparr>noteString = ''not a note'', relayer = ''r'', recipient = ''t'',
         leaves = [[1, 2]], leafIndex = SafeInteger (Abs_safeint 0),
         fee = SafeInteger (Abs_safeint 5), refund = SafeInteger (Abs_safeint 0),
         provingKey = [171, 1]\<rparr>)],
      Settle 0] =
   \<lparr>inflight = [], posted = [], rejections = [Thrown ''invalid note'']\<rparr>
   \<and> b_fee (proofInputBuilder (\<lambda>y :: int. ''1e+21'')
       \<lparr>noteString = ''webb.mix'', relayer = ''r'', recipient = ''t'',
         leaves = [[1, 2]], leafIndex = SafeInteger (Abs_safeint 0),
         fee = OtherNumber 1000000000000000000000, refund = SafeInteger (Abs_safeint 0),
         provingKey = [171, 1]\<rparr>) = Some ''1e+21''"
  by (simp add: runWorker_def startWorker_def onMessage_def onSettled_def
      ProvingManagerWrapper_proof_def proofInputBuilder_def setPk_def setRefund_def setFee_def
      String_number_def)

text \<open>
  C5. A \<^verbatim>\<open>destroy\<close> message does not terminate the worker: the call of \<^verbatim>\<open>terminate\<close> throws, the
  handler is rejected with a TypeError, and the worker takes its further turns as if the
  message had not come. A computation in flight is still answered when it settles.
\<close>

theorem C5_destroy_throws:
  "runWorker w st (Receive ((''destroy'', v) # others) # turns) =
   runWorker w (st\<lparr>rejections := rejections st @ [TypeError]\<rparr>) turns"
  by (simp add: runWorker_def onMessage_def)

theorem C5_destroy_throws_witness:
  "runWorker
     \<lparr>deserialize = \<lambda>s. Inr (length s), build_js = \<lambda>b. Inr b,
      generate_proof_js = \<lambda>n b. Inr \<lparr>wasmProof = [1], wasmRoot = [2], wasmNullifierHash = [3]\<rparr>,
      numberToString = \<lambda>y :: nat. ''NaN''\<rparr>
     (startWorker :: (string, nat) WorkerState)
     [Receive [(''proof'', Input \<lparr>noteString = ''webb.mix'', relayer = ''r'', recipient = ''t'',
         leaves = [[1, 2]], leafIndex = SafeInteger (Abs_safeint 0),
         fee = SafeInteger (Abs_safeint 5), refund = SafeInteger (Abs_safeint 0),
         provingKey = [171, 1]\<rparr>)],
      Receive [(''destroy'', Undefined)],
      Settle 0] =
   \<lparr>inflight = [],
    posted = [\<lparr>name = ''proof'',
               data = \<lparr>proofBytes = [1], root = [2], nullifierHash = [3]\<rparr>\<rparr>],
    rejections = [TypeError]\<rparr>"
proof -
  let ?w = "\<lparr>deserialize = \<lambda>s. Inr (length s), build_js = \<lambda>b. Inr b,
      generate_proof_js = \<lambda>n b. Inr \<lparr>wasmProof = [1], wasmRoot = [2], wasmNullifierHash = [3]\<rparr>,
      numberToString = \<lambda>y :: nat. ''NaN''\<rparr>
      :: (nat, JsProofInputBuilder, string, nat) externals"
  let ?i = "\<lparr>noteString = ''webb.mix'', relayer = ''r'', recipient = ''t'',
         leaves = [[1, 2]], leafIndex = SafeInteger (Abs_safeint 0),
         fee = SafeInteger (Abs_safeint 5), refund = SafeInteger (Abs_safeint 0),
         provingKey = [171, 1]\<rparr> :: nat ProvingManagerSetupInput"
  let ?st = "\<lparr>inflight = [Input ?i], posted = [], rejections = []\<rparr> :: (string, nat) WorkerState"
  have first: "runWorker ?w (startWorker :: (string, nat) WorkerState)
      [Receive [(''proof'', Input ?i)], Receive [(''destroy'', Undefined)], Settle 0] =
      runWorker ?w ?st (Receive ((''destroy'', Undefined) # []) # [Settle 0])"
    by (simp add: runWorker_def startWorker_def onMessage_def)
  also have "\<dots> = runWorker ?w (?st\<lparr>rejections := rejections ?st @ [TypeError]\<rparr>) [Settle 0]"
    by (rule C5_destroy_throws)
  also have "\<dots> = \<lparr>inflight = [],
      posted = [\<lparr>name = ''proof'', data = \<lparr>proofBytes = [1], root = [2], nullifierHash = [3]\<rparr>\<rparr>],
      rejections = [TypeError]\<rparr>"
    by (simp add: runWorker_def onSettled_def ProvingManagerWrapper_proof_def)
  finally show ?thesis .
qed

text \<open>
  C10. A message without keys, or whose first key is neither \<^verbatim>\<open>proof\<close> nor \<^verbatim>\<open>destroy\<close>, leaves
  the worker as it was: nothing is posted, the worker is not terminated, no handler is
  rejected and no computation is started.
\<close>

theorem C10_other_messages_ignored:
  "m = [] \<or> (\<exists>k v others. m = (k, v) # others \<and> k \<noteq> ''proof'' \<and> k \<noteq> ''destroy'') \<Longrightarrow>
   workerStep w st (Receive m) = st"
  by (auto simp: onMessage_def)

theorem C10_other_messages_ignored_witness:
  "workerStep
     \<lparr>deserialize = \<lambda>s. Inr (length s), build_js = \<lambda>b. Inr b,
      generate_proof_js = \<lambda>n b. Inr \<lparr>wasmProof = [1], wasmRoot = [2], wasmNullifierHash = [3]\<rparr>,
      numberToString = \<lambda>y :: nat. ''NaN''\<rparr>
     (startWorker :: (string, nat) WorkerState)
     (Receive [(''ping'', Undefined), (''destroy'', Undefined)]) =
   startWorker
   \<and> workerStep
     \<lparr>deserialize = \<lambda>s. Inr (length s), build_js = \<lambda>b. Inr b,
      generate_proof_js = \<lambda>n b. Inr \<lparr>wasmProof = [1], wasmRoot = [2], wasmNullifierHash = [3]\<rparr>,
      numberToString = \<lambda>y :: nat. ''NaN''\<rparr>
     (startWorker :: (string, nat) WorkerState) (Receive []) = startWorker"
proof (intro conjI)
  show "workerStep
     \<lparr>deserialize = \<lambda>s. Inr (length s), build_js = \<lambda>b. Inr b,
      generate_proof_js = \<lambda>n b. Inr \<lparr>wasmProof = [1], wasmRoot = [2], wasmNullifierHash = [3]\<rparr>,
      numberToString = \<lambda>y :: nat. ''NaN''\<rparr>
     (startWorker :: (string, nat) WorkerState)
     (Receive [(''ping'', Undefined), (''destroy'', Undefined)]) =
   startWorker"
    by (rule C10_other_messages_ignored) simp
  show "workerStep
     \<lparr>deserialize = \<lambda>s. Inr (length s), build_js = \<lambda>b. Inr b,
      generate_proof_js = \<lambda>n b. Inr \<lparr>wasmProof = [1], wasmRoot = [2], wasmNullifierHash = [3]\<rparr>,
      numberToString = \<lambda>y :: nat. ''NaN''\<rparr>
     (startWorker :: (string, nat) WorkerState) (Receive []) = startWorker"
    by (rule C10_other_messages_ignored) simp
qed

end
